theory Spec2Isabelle
  imports Main "HOL-Library.Word"
begin

section \<open>The process server's global state (state.c)\<close>

text \<open>
  This theory embeds the helper functions of the RefOS process server's
  \<^verbatim>\<open>state.c\<close>: \<^verbatim>\<open>faketime\<close>, \<^verbatim>\<open>procserv_mint_badge\<close>,
  \<^verbatim>\<open>procserv_frame_write\<close>, \<^verbatim>\<open>procserv_frame_read\<close>, \<^verbatim>\<open>procserv_find_device\<close>,
  \<^verbatim>\<open>procserv_flush\<close> and \<^verbatim>\<open>procserv_get_irq_handler\<close>.

  The functions act on the global \<^verbatim>\<open>procServ\<close> and, through the seL4 libraries, on
  kernel objects. Both are fields of one explicit state record that every function
  takes and returns. A call that does not return to its caller (a read past the end
  of a buffer, an access to a virtual address that is not mapped, a failed
  \<^verbatim>\<open>assert\<close>) has the result \<open>None\<close>.

  The code is built for 32-bit targets: \<^verbatim>\<open>int\<close>, \<^verbatim>\<open>size_t\<close>, \<^verbatim>\<open>uint32_t\<close>, pointers and
  \<^verbatim>\<open>seL4_CPtr\<close> are 32-bit words. An \<^verbatim>\<open>int\<close> is kept as its bit pattern and read with
  \<open>sint\<close> where the code compares it as a signed number.
\<close>

subsection \<open>Types\<close>

type_synonym c_int = "32 word"
type_synonym size_t = "32 word"
type_synonym seL4_Word = "32 word"
type_synonym seL4_CPtr = "32 word"
type_synonym vaddr = "32 word"
type_synonym paddr = "32 word"
type_synonym byte = "8 word"

text \<open>The status codes the frame functions return (\<^verbatim>\<open>enum refos_error\<close>).\<close>

datatype refos_error = ESUCCESS | ENOMEM | EINVALIDPARAM

text \<open>
  The access rights of a capability. The C expression
  \<^verbatim>\<open>seL4_CanGrant | seL4_CanWrite\<close> is the set \<open>{seL4_CanGrant, seL4_CanWrite}\<close>.
\<close>

datatype seL4_CapRights = seL4_CanWrite | seL4_CanRead | seL4_CanGrant

definition seL4_AllRights :: "seL4_CapRights set" where
  "seL4_AllRights = {seL4_CanWrite, seL4_CanRead, seL4_CanGrant}"

text \<open>
  The capabilities the functions handle: an endpoint capability (the endpoint object, the
  rights, the badge; badge 0 is an unbadged capability), a frame capability (the physical
  address of the frame and its size in bits) and an IRQ handler capability.
\<close>

datatype cap =
    Cap_Endpoint nat "seL4_CapRights set" seL4_Word
  | Cap_Frame paddr nat
  | Cap_IRQHandler c_int

text \<open>The fields of \<^verbatim>\<open>cspacepath_t\<close> that state.c reads.\<close>

record cspacepath_t =
  capPtr :: seL4_CPtr
  capDepth :: seL4_Word
  root :: seL4_CPtr

text \<open>
  The allocator interface \<^verbatim>\<open>vka_t\<close>, as far as state.c uses it: the capability slots
  it can still hand out, in the order it will hand them out, and the root CNode its
  paths name.
\<close>

record vka_t =
  free_cslots :: "seL4_CPtr list"
  cspace_root :: seL4_CPtr

text \<open>
  The address space manager \<^verbatim>\<open>vspace_t\<close>: the page-sized virtual ranges it can still
  hand out, and the pages that are mapped in the server's address space (virtual
  address of the page to the physical frame behind it).
\<close>

record vspace_t =
  free_vaddrs :: "vaddr list"
  pages :: "vaddr \<rightharpoonup> paddr"

text \<open>
  Modelled from the spec: the hash table \<^verbatim>\<open>chash_t\<close> of RefOS's data structure library
  is not among the sources. The spec describes the IRQ handler cache as an ordinary
  key-value mapping from integer to resource handle; a lookup of an absent key gives
  the null item.
\<close>

type_synonym chash_t = "32 word \<rightharpoonup> 32 word"

text \<open>
  The state: the fields of the global \<^verbatim>\<open>procServ\<close> that state.c uses
  (\<open>vka\<close>, \<open>vspace\<close>, \<open>endpoint\<close> for \<^verbatim>\<open>procServ.endpoint.cptr\<close>, \<open>simpleEnv\<close> as the
  device regions of the boot environment, \<open>irqHandlerList\<close>, \<open>faketime_field\<close> for
  \<^verbatim>\<open>procServ.faketime\<close>), and the kernel objects behind them: the capabilities in the
  server's slots (\<open>cnode\<close>), the contents of the physical frames (\<open>frame_mem\<close>, byte
  by offset), the IRQ lines whose handler has been issued, and the record of the
  instruction cache synchronisations requested so far.
\<close>

record system_state =
  vka :: vka_t
  vspace :: vspace_t
  endpoint :: seL4_CPtr
  simpleEnv :: "(paddr \<times> nat) list"
  irqHandlerList :: chash_t
  faketime_field :: "32 word"
  cnode :: "seL4_CPtr \<rightharpoonup> cap"
  frame_mem :: "paddr \<Rightarrow> nat \<Rightarrow> byte"
  irq_issued :: "c_int set"
  unified :: "(seL4_CPtr \<times> seL4_Word \<times> seL4_Word) list"

subsection \<open>Constants of the missing headers\<close>

text \<open>
  Modelled from the spec: \<^verbatim>\<open>refos.h\<close> is not among the sources. The spec takes
  \<^verbatim>\<open>REFOS_PAGE_SIZE\<close> to be one page of the standard physical page size, which is
  \<open>2 ^ seL4_PageBits\<close> with \<^verbatim>\<open>seL4_PageBits\<close> = 12 on the 32-bit targets.
\<close>

definition seL4_PageBits :: nat where
  "seL4_PageBits = 12"

definition REFOS_PAGE_SIZE :: size_t where
  "REFOS_PAGE_SIZE = 4096"

text \<open>
  The page that holds a virtual address, and the offset of the address in its page.
\<close>

definition page_of :: "vaddr \<Rightarrow> vaddr" where
  "page_of a = a - a mod REFOS_PAGE_SIZE"

definition page_offset :: "vaddr \<Rightarrow> nat" where
  "page_offset a = unat (a mod REFOS_PAGE_SIZE)"

text \<open>seL4's error codes: 0 is success, the others are failures.\<close>

definition seL4_NoError :: c_int where
  "seL4_NoError = 0"

definition seL4_FailedLookup :: c_int where
  "seL4_FailedLookup = 6"

definition seL4_DeleteFirst :: c_int where
  "seL4_DeleteFirst = 8"

definition seL4_RevokeFirst :: c_int where
  "seL4_RevokeFirst = 9"

definition seL4_NotEnoughMemory :: c_int where
  "seL4_NotEnoughMemory = 10"

subsection \<open>The library calls state.c makes\<close>

text \<open>
  The seL4 libraries (libsel4vka, libsel4vspace, libsel4simple, libsel4) are not part of
  this repository. Each call is modelled by what it does to the state above, with every
  outcome state.c tests for: success, or failure with the state left as it was.
\<close>

text \<open>\<^verbatim>\<open>vka_cspace_make_path\<close>: the path of a slot in the allocator's CSpace.\<close>

definition vka_cspace_make_path :: "vka_t \<Rightarrow> seL4_CPtr \<Rightarrow> cspacepath_t" where
  "vka_cspace_make_path v slot = \<lparr>capPtr = slot, capDepth = 32, root = cspace_root v\<rparr>"

text \<open>
  \<^verbatim>\<open>vka_cspace_alloc_path(vka, &res)\<close>: takes the next free slot and writes its path to
  \<open>res\<close>; with no free slot it fails and leaves \<open>res\<close> as it was. The result is the error
  code, the allocator and the contents of \<open>res\<close> after the call.
\<close>

definition vka_cspace_alloc_path :: "vka_t \<Rightarrow> cspacepath_t \<Rightarrow> c_int \<times> vka_t \<times> cspacepath_t" where
  "vka_cspace_alloc_path v res =
     (case free_cslots v of
        [] \<Rightarrow> (seL4_NotEnoughMemory, v, res)
      | slot # rest \<Rightarrow> (seL4_NoError, v\<lparr>free_cslots := rest\<rparr>, vka_cspace_make_path v slot))"

text \<open>\<^verbatim>\<open>vka_cspace_free\<close>: gives a slot back to the allocator.\<close>

definition vka_cspace_free :: "vka_t \<Rightarrow> seL4_CPtr \<Rightarrow> vka_t" where
  "vka_cspace_free v slot = v\<lparr>free_cslots := slot # free_cslots v\<rparr>"

text \<open>
  The capability \<^verbatim>\<open>seL4_CNode_Mint\<close> derives from a source capability: the rights are
  those of the source that the mask keeps, and an endpoint capability gets the badge.
  A badged endpoint capability cannot be badged again.
\<close>

fun derive_cap :: "cap \<Rightarrow> seL4_CapRights set \<Rightarrow> seL4_Word \<Rightarrow> cap option" where
  "derive_cap (Cap_Endpoint ep r b) rights badge =
     (if b = 0 then Some (Cap_Endpoint ep (r \<inter> rights) badge) else None)"
| "derive_cap (Cap_Frame p bits) rights badge = Some (Cap_Frame p bits)"
| "derive_cap (Cap_IRQHandler irq) rights badge = Some (Cap_IRQHandler irq)"

text \<open>
  \<^verbatim>\<open>vka_cnode_mint(dest, src, rights, badge)\<close>: fails when the source slot is empty, the
  destination slot is occupied or the source cannot be derived from.
\<close>

definition vka_cnode_mint ::
  "(seL4_CPtr \<rightharpoonup> cap) \<Rightarrow> cspacepath_t \<Rightarrow> cspacepath_t \<Rightarrow> seL4_CapRights set \<Rightarrow> seL4_Word
     \<Rightarrow> c_int \<times> (seL4_CPtr \<rightharpoonup> cap)" where
  "vka_cnode_mint cn dest src rights badge =
     (case cn (capPtr src) of
        None \<Rightarrow> (seL4_FailedLookup, cn)
      | Some c \<Rightarrow>
          (case cn (capPtr dest) of
             Some d \<Rightarrow> (seL4_DeleteFirst, cn)
           | None \<Rightarrow>
               (case derive_cap c rights badge of
                  None \<Rightarrow> (seL4_RevokeFirst, cn)
                | Some c' \<Rightarrow> (seL4_NoError, cn(capPtr dest \<mapsto> c')))))"

text \<open>\<^verbatim>\<open>seL4_CapData_Badge_new\<close>: the badge as capability data.\<close>

definition seL4_CapData_Badge_new :: "c_int \<Rightarrow> seL4_Word" where
  "seL4_CapData_Badge_new badge = badge"

text \<open>
  \<^verbatim>\<open>vspace_map_pages(vspace, &frame, NULL, seL4_AllRights, 1, seL4_PageBits, true)\<close>: maps
  one page-sized frame at the next free virtual address and returns that address, or
  returns \<^verbatim>\<open>NULL\<close> (0) and maps nothing when there is no free address or the slot holds
  no page-sized frame capability. The address handed out is page aligned and never 0.
\<close>

definition vspace_map_pages ::
  "vspace_t \<Rightarrow> (seL4_CPtr \<rightharpoonup> cap) \<Rightarrow> seL4_CPtr \<Rightarrow> vaddr \<times> vspace_t" where
  "vspace_map_pages vs cn frame =
     (case free_vaddrs vs of
        [] \<Rightarrow> (0, vs)
      | v # rest \<Rightarrow>
          (case cn frame of
             Some (Cap_Frame p bits) \<Rightarrow>
               if v \<noteq> 0 \<and> page_offset v = 0 \<and> bits = seL4_PageBits
               then (v, vs\<lparr>free_vaddrs := rest, pages := (pages vs)(v \<mapsto> p)\<rparr>)
               else (0, vs)
           | _ \<Rightarrow> (0, vs)))"

text \<open>
  \<^verbatim>\<open>vspace_unmap_pages(vspace, addr, 1, seL4_PageBits, VSPACE_PRESERVE)\<close>: removes the
  page at \<open>addr\<close> and makes the address free again; the frame capability is kept.
\<close>

definition vspace_unmap_pages :: "vspace_t \<Rightarrow> vaddr \<Rightarrow> vspace_t" where
  "vspace_unmap_pages vs addr =
     vs\<lparr>free_vaddrs := addr # free_vaddrs vs, pages := (pages vs)(addr := None)\<rparr>"

text \<open>
  The bytes of one frame: the frame after a buffer has been written at an offset, and
  the bytes of a range.
\<close>

definition write_bytes :: "(nat \<Rightarrow> byte) \<Rightarrow> nat \<Rightarrow> byte list \<Rightarrow> (nat \<Rightarrow> byte)" where
  "write_bytes m off bs = (\<lambda>i. if off \<le> i \<and> i < off + length bs then bs ! (i - off) else m i)"

definition read_bytes :: "(nat \<Rightarrow> byte) \<Rightarrow> nat \<Rightarrow> nat \<Rightarrow> byte list" where
  "read_bytes m off n = map m [off..<off + n]"

text \<open>
  The server's virtual memory, as far as the address space manager has mapped it: the
  byte at a virtual address is the byte at \<open>page_offset\<close> of the frame that is mapped at
  its \<open>page_of\<close>. An access to an address in a page that is not mapped faults, and the
  call does not return. Bytes are stored and loaded at ascending addresses, and address
  arithmetic wraps at \<open>2 ^ 32\<close>.
\<close>

fun store_bytes ::
  "(vaddr \<rightharpoonup> paddr) \<Rightarrow> (paddr \<Rightarrow> nat \<Rightarrow> byte) \<Rightarrow> vaddr \<Rightarrow> byte list
     \<Rightarrow> (paddr \<Rightarrow> nat \<Rightarrow> byte) option" where
  "store_bytes pg mem a [] = Some mem"
| "store_bytes pg mem a (b # bs) =
     (case pg (page_of a) of
        None \<Rightarrow> None
      | Some p \<Rightarrow> store_bytes pg (mem(p := (mem p)(page_offset a := b))) (a + 1) bs)"

fun load_bytes ::
  "(vaddr \<rightharpoonup> paddr) \<Rightarrow> (paddr \<Rightarrow> nat \<Rightarrow> byte) \<Rightarrow> vaddr \<Rightarrow> nat \<Rightarrow> byte list option" where
  "load_bytes pg mem a 0 = Some []"
| "load_bytes pg mem a (Suc n) =
     (case pg (page_of a) of
        None \<Rightarrow> None
      | Some p \<Rightarrow>
          (case load_bytes pg mem (a + 1) n of
             None \<Rightarrow> None
           | Some bs \<Rightarrow> Some (mem p (page_offset a) # bs)))"

text \<open>
  \<^verbatim>\<open>memcpy(dest, src, len)\<close> from a buffer of the caller to the virtual address \<open>dest\<close>:
  the first \<open>len\<close> bytes of the buffer are stored from \<open>dest\<close> upwards, in whatever
  pages those addresses lie. Reading past the end of the buffer does not return.
\<close>

definition memcpy_to_page ::
  "system_state \<Rightarrow> vaddr \<Rightarrow> byte list \<Rightarrow> size_t \<Rightarrow> system_state option" where
  "memcpy_to_page s dest src len =
     (if unat len \<le> length src
      then (case store_bytes (pages (vspace s)) (frame_mem s) dest (take (unat len) src) of
              None \<Rightarrow> None
            | Some mem \<Rightarrow> Some (s\<lparr>frame_mem := mem\<rparr>))
      else None)"

text \<open>
  \<^verbatim>\<open>memcpy(dst, source, len)\<close> from the virtual address \<open>source\<close> to a buffer of the
  caller; the result is the buffer after the copy. Writing past the end of the buffer
  does not return.
\<close>

definition memcpy_from_page ::
  "system_state \<Rightarrow> byte list \<Rightarrow> vaddr \<Rightarrow> size_t \<Rightarrow> byte list option" where
  "memcpy_from_page s dst source len =
     (if unat len \<le> length dst
      then (case load_bytes (pages (vspace s)) (frame_mem s) source (unat len) of
              None \<Rightarrow> None
            | Some bs \<Rightarrow> Some (bs @ drop (unat len) dst))
      else None)"

text \<open>
  \<^verbatim>\<open>seL4_ARM_Page_Unify_Instruction(cap, start, end)\<close>: the kernel synchronises the
  instruction cache over the range; the state records the request. state.c ignores
  the error code.
\<close>

definition seL4_ARM_Page_Unify_Instruction ::
  "system_state \<Rightarrow> seL4_CPtr \<Rightarrow> seL4_Word \<Rightarrow> seL4_Word \<Rightarrow> system_state" where
  "seL4_ARM_Page_Unify_Instruction s c start_offset end_offset =
     s\<lparr>unified := unified s @ [(c, start_offset, end_offset)]\<rparr>"

subsection \<open>procserv_flush\<close>

text \<open>
  The loop \<^verbatim>\<open>for (int i = 0; i < nFrames; i++)\<close> over the array \<open>frame\<close>. Reading
  \<^verbatim>\<open>frame[i]\<close> past the end of the array does not return.
\<close>

function procserv_flush_loop ::
  "seL4_CPtr list \<Rightarrow> int \<Rightarrow> nat \<Rightarrow> system_state \<Rightarrow> system_state option" where
  "procserv_flush_loop frame nFrames i s =
     (if int i < nFrames then
        (if i < length frame then
           (if frame ! i = 0 then procserv_flush_loop frame nFrames (i + 1) s
            else procserv_flush_loop frame nFrames (i + 1)
                   (seL4_ARM_Page_Unify_Instruction s (frame ! i) 0 REFOS_PAGE_SIZE))
         else None)
      else Some s)"
  by pat_completeness auto
termination
  by (relation "measure (\<lambda>(frame, nFrames, i, s). nat (nFrames - int i))") auto

text \<open>
  \<open>arm\<close> is the build option \<^verbatim>\<open>CONFIG_ARCH_ARM\<close>; without it the body is empty. A null
  \<open>frame\<close> pointer is \<open>None\<close>.
\<close>

definition procserv_flush ::
  "bool \<Rightarrow> seL4_CPtr list option \<Rightarrow> c_int \<Rightarrow> system_state \<Rightarrow> system_state option" where
  "procserv_flush arm frame nFrames s =
     (if arm then
        (case frame of
           None \<Rightarrow> Some s
         | Some fs \<Rightarrow> procserv_flush_loop fs (sint nFrames) 0 s)
      else Some s)"

subsection \<open>procserv_frame_write and procserv_frame_read\<close>

definition procserv_frame_write ::
  "bool \<Rightarrow> seL4_CPtr \<Rightarrow> byte list \<Rightarrow> size_t \<Rightarrow> size_t \<Rightarrow> system_state
     \<Rightarrow> (refos_error \<times> system_state) option" where
  "procserv_frame_write arm frame src len offset s =
     (if offset + len > REFOS_PAGE_SIZE then Some (EINVALIDPARAM, s)
      else
        (case vspace_map_pages (vspace s) (cnode s) frame of
           (addr, vs) \<Rightarrow>
             if addr = 0 then Some (ENOMEM, s\<lparr>vspace := vs\<rparr>)
             else
               (case memcpy_to_page (s\<lparr>vspace := vs\<rparr>) (addr + offset) src len of
                  None \<Rightarrow> None
                | Some s1 \<Rightarrow>
                    (case procserv_flush arm (Some [frame]) 1 s1 of
                       None \<Rightarrow> None
                     | Some s2 \<Rightarrow>
                         Some (ESUCCESS, s2\<lparr>vspace := vspace_unmap_pages (vspace s2) addr\<rparr>)))))"

text \<open>
  The result of \<^verbatim>\<open>procserv_frame_read\<close> is the status, the destination buffer after
  the call and the state.
\<close>

definition procserv_frame_read ::
  "bool \<Rightarrow> seL4_CPtr \<Rightarrow> byte list \<Rightarrow> size_t \<Rightarrow> size_t \<Rightarrow> system_state
     \<Rightarrow> (refos_error \<times> byte list \<times> system_state) option" where
  "procserv_frame_read arm frame dst len offset s =
     (if offset + len > REFOS_PAGE_SIZE then Some (EINVALIDPARAM, dst, s)
      else
        (case vspace_map_pages (vspace s) (cnode s) frame of
           (addr, vs) \<Rightarrow>
             if addr = 0 then Some (ENOMEM, dst, s\<lparr>vspace := vs\<rparr>)
             else
               (case procserv_flush arm (Some [frame]) 1 (s\<lparr>vspace := vs\<rparr>) of
                  None \<Rightarrow> None
                | Some s1 \<Rightarrow>
                    (case memcpy_from_page s1 dst (addr + offset) len of
                       None \<Rightarrow> None
                     | Some dst' \<Rightarrow>
                         Some (ESUCCESS, dst',
                               s1\<lparr>vspace := vspace_unmap_pages (vspace s1) addr\<rparr>)))))"

subsection \<open>faketime\<close>

text \<open>
  \<^verbatim>\<open>return procServ.faketime++;\<close> on a \<^verbatim>\<open>uint32_t\<close>: the value before the increment is
  returned, and the increment wraps around at \<open>2 ^ 32\<close>.
\<close>

definition faketime :: "system_state \<Rightarrow> 32 word \<times> system_state" where
  "faketime s = (faketime_field s, s\<lparr>faketime_field := faketime_field s + 1\<rparr>)"

text \<open>The state after \<open>n\<close> calls of \<^verbatim>\<open>faketime\<close>.\<close>

primrec faketime_calls :: "nat \<Rightarrow> system_state \<Rightarrow> system_state" where
  "faketime_calls 0 s = s"
| "faketime_calls (Suc n) s = faketime_calls n (snd (faketime s))"

subsection \<open>procserv_mint_badge\<close>

text \<open>A path after \<^verbatim>\<open>memset(&path, 0, sizeof(cspacepath_t))\<close>.\<close>

definition zero_path :: cspacepath_t where
  "zero_path = \<lparr>capPtr = 0, capDepth = 0, root = 0\<rparr>"

definition procserv_mint_badge :: "c_int \<Rightarrow> system_state \<Rightarrow> cspacepath_t \<times> system_state" where
  "procserv_mint_badge badge s =
     (case vka_cspace_alloc_path (vka s) zero_path of
        (error, v, path) \<Rightarrow>
          if error \<noteq> 0 then (path, s\<lparr>vka := v\<rparr>)
          else
            (let pathSrc = vka_cspace_make_path v (endpoint s) in
             case vka_cnode_mint (cnode s) path pathSrc {seL4_CanGrant, seL4_CanWrite}
                    (seL4_CapData_Badge_new badge) of
               (error, cn) \<Rightarrow>
                 if error \<noteq> 0
                 then (zero_path, s\<lparr>vka := vka_cspace_free v (capPtr path), cnode := cn\<rparr>)
                 else (path, s\<lparr>vka := v, cnode := cn\<rparr>)))"

subsection \<open>procserv_find_device\<close>

text \<open>
  The loop that looks for the size in bits: \<^verbatim>\<open>(1 << i) == size\<close> for \<open>i\<close> from 0 to 31,
  on 32-bit \<^verbatim>\<open>int\<close>s (\<open>sz\<close> is the argument \<^verbatim>\<open>size\<close>). The result is \<^verbatim>\<open>sizeBits\<close>, which stays -1 when no \<open>i\<close> matches.
  At \<open>i = 31\<close> the shift gives the bit pattern \<open>2 ^ 31\<close>.
\<close>

function procserv_find_device_loop :: "c_int \<Rightarrow> nat \<Rightarrow> int" where
  "procserv_find_device_loop sz i =
     (if i < 32 then
        (if push_bit i 1 = sz then int i else procserv_find_device_loop sz (i + 1))
      else - 1)"
  by pat_completeness auto
termination
  by (relation "measure (\<lambda>(sz, i). 32 - i)") auto

text \<open>
  \<^verbatim>\<open>simple_get_frame_cap(&simpleEnv, paddr, sizeBits, &path)\<close>: when the boot environment
  has a device region at \<open>paddr\<close> of that size, its frame capability is put in the slot
  of \<open>path\<close>; otherwise the call fails and changes nothing.
\<close>

definition simple_get_frame_cap ::
  "(paddr \<times> nat) list \<Rightarrow> (seL4_CPtr \<rightharpoonup> cap) \<Rightarrow> paddr \<Rightarrow> int \<Rightarrow> cspacepath_t
     \<Rightarrow> c_int \<times> (seL4_CPtr \<rightharpoonup> cap)" where
  "simple_get_frame_cap env cn p size_bits path =
     (if (p, nat size_bits) \<in> set env \<and> cn (capPtr path) = None
      then (seL4_NoError, cn(capPtr path \<mapsto> Cap_Frame p (nat size_bits)))
      else (seL4_FailedLookup, cn))"

text \<open>
  \<open>path0\<close> is the indeterminate content of the local \<^verbatim>\<open>path\<close>, of which only
  \<^verbatim>\<open>capPtr\<close> is set before the first return. A failed \<^verbatim>\<open>assert\<close> does not return.
\<close>

definition procserv_find_device ::
  "cspacepath_t \<Rightarrow> paddr \<Rightarrow> c_int \<Rightarrow> system_state \<Rightarrow> (cspacepath_t \<times> system_state) option" where
  "procserv_find_device path0 p sz s =
     (let path = path0\<lparr>capPtr := 0\<rparr>;
          sizeBits = procserv_find_device_loop sz 0
      in
        if sizeBits = - 1 then Some (path, s)
        else
          (case vka_cspace_alloc_path (vka s) path of
             (error, v, path) \<Rightarrow>
               if error \<noteq> 0 then Some (path\<lparr>capPtr := 0\<rparr>, s\<lparr>vka := v\<rparr>)
               else
                 (case simple_get_frame_cap (simpleEnv s) (cnode s) p sizeBits path of
                    (error, cn) \<Rightarrow>
                      if error \<noteq> 0
                      then Some (path\<lparr>capPtr := 0\<rparr>,
                                 s\<lparr>vka := vka_cspace_free v (capPtr path), cnode := cn\<rparr>)
                      else if capPtr path = 0 then None
                      else Some (path, s\<lparr>vka := v, cnode := cn\<rparr>))))"

subsection \<open>procserv_get_irq_handler\<close>






subsection \<open>Example states\<close>

text \<open>
  A state as it is after start-up: zeroed clock and empty IRQ cache, the main endpoint
  in slot 5 with all rights, a page-sized frame of a client in slot 7, three free
  capability slots, one free page of virtual addresses and one device region.
\<close>

definition boot_state :: system_state where
  "boot_state =
     \<lparr>vka = \<lparr>free_cslots = [10, 11, 12], cspace_root = 2\<rparr>,
      vspace = \<lparr>free_vaddrs = [0x10000000], pages = Map.empty\<rparr>,
      endpoint = 5,
      simpleEnv = [(0x53F00000, 12)],
      irqHandlerList = Map.empty,
      faketime_field = 0,
      cnode = [5 \<mapsto> Cap_Endpoint 1 seL4_AllRights 0, 7 \<mapsto> Cap_Frame 0x20000000 12],
      frame_mem = (\<lambda>p i. 0),
      irq_issued = {},
      unified = []\<rparr>"

text \<open>The same state with no free capability slot and no free virtual address.\<close>

definition exhausted_state :: system_state where
  "exhausted_state =
     boot_state\<lparr>vka := \<lparr>free_cslots = [], cspace_root = 2\<rparr>,
                vspace := \<lparr>free_vaddrs = [], pages = Map.empty\<rparr>\<rparr>"

text \<open>The same state with the main endpoint slot empty, so that minting fails.\<close>

definition no_endpoint_state :: system_state where
  "no_endpoint_state = boot_state\<lparr>cnode := [7 \<mapsto> Cap_Frame 0x20000000 12]\<rparr>"

text \<open>The start-up state with a second frame mapped in the page below the free one.\<close>

definition neighbour_state :: system_state where
  "neighbour_state =
     boot_state\<lparr>vspace := \<lparr>free_vaddrs = [0x10000000],
                            pages = [0x0FFFF000 \<mapsto> 0x30000000]\<rparr>\<rparr>"


text \<open>The start-up state with a device region of \<open>2 ^ 31\<close> bytes.\<close>

definition big_device_state :: system_state where
  "big_device_state = boot_state\<lparr>simpleEnv := [(0x80000000, 31)]\<rparr>"

section \<open>Properties\<close>

subsection \<open>Auxiliary facts\<close>

declare procserv_flush_loop.simps [simp del]
declare procserv_find_device_loop.simps [simp del]

text \<open>
  The flush loop started at index \<open>i\<close> requests one synchronisation for every non-null
  entry from \<open>i\<close> up to \<open>nFrames\<close>, in order, when the array has \<open>nFrames\<close> entries.
\<close>

lemma flush_loop_result:
  "nat nFrames \<le> length frame \<Longrightarrow>
   procserv_flush_loop frame nFrames i s =
     Some (s\<lparr>unified := unified s @
             map (\<lambda>c. (c, 0, REFOS_PAGE_SIZE))
               (filter (\<lambda>c. c \<noteq> 0) (drop i (take (nat nFrames) frame)))\<rparr>)"
proof (induction frame nFrames i s rule: procserv_flush_loop.induct)
  case (1 frame nFrames i s)
  show ?case
  proof (cases "int i < nFrames")
    case False
    then have "drop i (take (nat nFrames) frame) = []" by simp
    with False show ?thesis
      by (simp add: procserv_flush_loop.simps [of frame nFrames i s])
  next
    case True
    with "1.prems" have len: "i < length frame" and i: "i < length (take (nat nFrames) frame)"
      by auto
    have split: "drop i (take (nat nFrames) frame) =
                   frame ! i # drop (i + 1) (take (nat nFrames) frame)"
      using Cons_nth_drop_Suc [OF i, symmetric] i by simp
    show ?thesis
    proof (cases "frame ! i = 0")
      case z: True
      have "procserv_flush_loop frame nFrames i s = procserv_flush_loop frame nFrames (i + 1) s"
        using True len z by (simp add: procserv_flush_loop.simps [of frame nFrames i s])
      also have "\<dots> = Some (s\<lparr>unified := unified s @
             map (\<lambda>c. (c, 0, REFOS_PAGE_SIZE))
               (filter (\<lambda>c. c \<noteq> 0) (drop (i + 1) (take (nat nFrames) frame)))\<rparr>)"
        using "1.IH"(1) [OF True len z "1.prems"] .
      finally show ?thesis using z by (simp add: split)
    next
      case nz: False
      let ?s1 = "seL4_ARM_Page_Unify_Instruction s (frame ! i) 0 REFOS_PAGE_SIZE"
      have "procserv_flush_loop frame nFrames i s = procserv_flush_loop frame nFrames (i + 1) ?s1"
        using True len nz by (simp add: procserv_flush_loop.simps [of frame nFrames i s])
      also have "\<dots> = Some (?s1\<lparr>unified := unified ?s1 @
             map (\<lambda>c. (c, 0, REFOS_PAGE_SIZE))
               (filter (\<lambda>c. c \<noteq> 0) (drop (i + 1) (take (nat nFrames) frame)))\<rparr>)"
        using "1.IH"(2) [OF True len nz "1.prems"] .
      finally show ?thesis using nz
        by (simp add: split seL4_ARM_Page_Unify_Instruction_def)
    qed
  qed
qed

text \<open>The call \<^verbatim>\<open>procserv_flush(&frame, 1)\<close> of the frame functions always returns.\<close>

lemma flush_one:
  "procserv_flush arm (Some [frame]) 1 s =
     Some (if arm \<and> frame \<noteq> 0
           then seL4_ARM_Page_Unify_Instruction s frame 0 REFOS_PAGE_SIZE else s)"
  by (simp add: procserv_flush_def flush_loop_result seL4_ARM_Page_Unify_Instruction_def)

text \<open>The bounds check of the frame functions, read on natural numbers.\<close>

lemma bounds_check_wraps:
  "(offset + len > REFOS_PAGE_SIZE) =
     ((unat (offset::size_t) + unat (len::size_t)) mod 2 ^ 32 > 4096)"
  by (simp add: REFOS_PAGE_SIZE_def word_less_nat_alt unat_word_ariths)

lemma bounds_check_passes:
  "unat (offset::size_t) + unat (len::size_t) \<le> unat REFOS_PAGE_SIZE
     \<Longrightarrow> \<not> offset + len > REFOS_PAGE_SIZE"
proof -
  assume "unat offset + unat len \<le> unat REFOS_PAGE_SIZE"
  then have "unat offset + unat len \<le> 4096" by (simp add: REFOS_PAGE_SIZE_def)
  moreover have "(unat offset + unat len) mod 2 ^ 32 \<le> unat offset + unat len"
    by (rule mod_less_eq_dividend)
  ultimately have "\<not> (unat offset + unat len) mod 2 ^ 32 > 4096" by linarith
  then show ?thesis unfolding bounds_check_wraps .
qed

lemma map_pages_cases:
  "vspace_map_pages vs cn frame = (addr, vs') \<Longrightarrow>
     (addr = 0 \<and> vs' = vs) \<or>
     (addr \<noteq> 0 \<and>
      page_offset addr = 0 \<and>
      (\<exists>p rest. free_vaddrs vs = addr # rest \<and> cn frame = Some (Cap_Frame p seL4_PageBits) \<and>
         vs' = vs\<lparr>free_vaddrs := rest, pages := (pages vs)(addr \<mapsto> p)\<rparr>))"
  by (auto simp: vspace_map_pages_def split: list.splits option.splits cap.splits if_splits)

lemma read_write_bytes:
  "read_bytes (write_bytes m off bs) off (length bs) = bs"
  by (rule nth_equalityI) (simp_all add: read_bytes_def write_bytes_def)

text \<open>Addresses in the page at a page-aligned address, and the address just below it.\<close>

lemma aligned_bound:
  assumes "page_offset addr = 0"
  shows "unat addr + 4096 \<le> 2 ^ 32"
proof -
  have m: "unat addr mod 4096 = 0"
    using assms by (simp add: page_offset_def REFOS_PAGE_SIZE_def unat_mod)
  have "unat addr < 2 ^ 32" using unsigned_less [of addr] by simp
  moreover from m obtain k where k: "unat addr = 4096 * k" by (auto simp: mod_eq_0_iff_dvd)
  ultimately have "k < 1048576" by simp
  then have "4096 * k + 4096 \<le> 4096 * 1048576" by simp
  with k show ?thesis by simp
qed

lemma in_page:
  assumes al: "page_offset addr = 0" and off: "off < 4096"
  shows "page_of (addr + of_nat off) = addr \<and> page_offset (addr + of_nat off) = off"
proof -
  have m: "unat addr mod 4096 = 0"
    using al by (simp add: page_offset_def REFOS_PAGE_SIZE_def unat_mod)
  have b: "unat addr + 4096 \<le> 2 ^ 32" by (rule aligned_bound [OF al])
  have uo: "unat (of_nat off :: vaddr) = off" using off by (simp add: unat_of_nat)
  have u: "unat (addr + of_nat off) = unat addr + off"
    using b off uo by (simp add: unat_word_ariths)
  have po: "unat ((addr + of_nat off) mod REFOS_PAGE_SIZE) = off"
    using m off by (simp add: unat_mod u REFOS_PAGE_SIZE_def mod_add_left_eq [symmetric])
  then have "(addr + of_nat off) mod REFOS_PAGE_SIZE = of_nat off"
    using uo by (simp add: word_unat_eq_iff)
  then show ?thesis using po by (simp add: page_of_def page_offset_def)
qed

lemma below_page:
  assumes al: "page_offset addr = 0" and nz: "addr \<noteq> 0"
  shows "page_of (addr + 0xFFFFFFFF) = addr - REFOS_PAGE_SIZE \<and>
         page_offset (addr + 0xFFFFFFFF) = 4095 \<and>
         addr + 0xFFFFFFFF + 1 = addr \<and> addr - REFOS_PAGE_SIZE \<noteq> addr"
proof -
  have m: "unat addr mod 4096 = 0"
    using al by (simp add: page_offset_def REFOS_PAGE_SIZE_def unat_mod)
  from m obtain k where k: "unat addr = 4096 * k" by (auto simp: mod_eq_0_iff_dvd)
  have "unat addr \<noteq> 0" using nz by (simp add: unat_eq_0)
  with k have k0: "0 < k" by simp
  then have ge: "4096 \<le> unat addr" using k by simp
  have e: "addr + 0xFFFFFFFF = addr - 1" by simp
  have u: "unat (addr - 1) = unat addr - 1"
    using ge by (simp add: unat_sub word_le_nat_alt)
  have "unat addr - 1 = 4096 * (k - 1) + 4095" using k k0 by (cases k) simp_all
  then have "(unat addr - 1) mod 4096 = 4095" by simp
  then have po: "unat ((addr - 1) mod REFOS_PAGE_SIZE) = 4095"
    by (simp add: unat_mod u REFOS_PAGE_SIZE_def)
  then have "(addr - 1) mod REFOS_PAGE_SIZE = 4095"
    by (simp add: word_unat_eq_iff)
  then show ?thesis using po unfolding e
    by (simp add: page_of_def page_offset_def REFOS_PAGE_SIZE_def)
qed

text \<open>
  A copy that stays inside the page mapped at a page-aligned address writes, or reads,
  the bytes of the frame behind that page.
\<close>

lemma write_bytes_Cons:
  "write_bytes ((m :: nat \<Rightarrow> byte)(off := b)) (Suc off) bs = write_bytes m off (b # bs)"
  by (auto simp: write_bytes_def fun_eq_iff nth_Cons')

lemma store_in_page:
  assumes al: "page_offset addr = 0" and pg: "pg addr = Some p"
  shows "off + length bs \<le> 4096 \<Longrightarrow>
         store_bytes pg mem (addr + of_nat off) bs = Some (mem(p := write_bytes (mem p) off bs))"
proof (induction bs arbitrary: off mem)
  case Nil
  have "write_bytes (mem p) off [] = mem p" by (auto simp: write_bytes_def fun_eq_iff)
  then show ?case by simp
next
  case (Cons b bs)
  then have off: "off < 4096" and rest: "Suc off + length bs \<le> 4096" by simp_all
  note here = in_page [OF al off]
  have next_addr: "addr + of_nat off + 1 = addr + of_nat (Suc off)" by simp
  let ?mem = "mem(p := (mem p)(off := b))"
  have "store_bytes pg mem (addr + of_nat off) (b # bs) =
          store_bytes pg ?mem (addr + of_nat (Suc off)) bs"
    using here pg by (simp only: store_bytes.simps next_addr option.case)
  also have "\<dots> = Some (?mem(p := write_bytes (?mem p) (Suc off) bs))"
    by (rule Cons.IH [OF rest])
  also have "?mem(p := write_bytes (?mem p) (Suc off) bs) =
               mem(p := write_bytes (mem p) off (b # bs))"
    by (simp add: write_bytes_Cons)
  finally show ?case .
qed

lemma load_in_page:
  assumes al: "page_offset addr = 0" and pg: "pg addr = Some p"
  shows "off + n \<le> 4096 \<Longrightarrow>
         load_bytes pg mem (addr + of_nat off) n = Some (read_bytes (mem p) off n)"
proof (induction n arbitrary: off)
  case 0
  then show ?case by (simp add: read_bytes_def)
next
  case (Suc n)
  then have off: "off < 4096" and rest: "Suc off + n \<le> 4096" by simp_all
  note here = in_page [OF al off]
  have next_addr: "addr + of_nat off + 1 = addr + of_nat (Suc off)" by simp
  have "load_bytes pg mem (addr + of_nat off) (Suc n) =
          (case load_bytes pg mem (addr + of_nat (Suc off)) n of
             None \<Rightarrow> None
           | Some bs \<Rightarrow> Some (mem p off # bs))"
    using here pg by (simp only: load_bytes.simps next_addr option.case)
  also have "\<dots> = Some (mem p off # read_bytes (mem p) (Suc off) n)"
    by (simp only: Suc.IH [OF rest] option.case)
  also have "mem p off # read_bytes (mem p) (Suc off) n = read_bytes (mem p) off (Suc n)"
    by (simp add: read_bytes_def upt_rec [of off])
  finally show ?case .
qed

lemma load_bytes_numeral:
  "load_bytes pg mem a (numeral k) = load_bytes pg mem a (Suc (pred_numeral k))"
  by (simp only: numeral_eq_Suc)

lemma memcpy_to_page_in_page:
  assumes al: "page_offset addr = 0" and pg: "pages (vspace s) addr = Some p"
    and inpage: "unat offset + unat len \<le> unat REFOS_PAGE_SIZE"
    and src: "unat len \<le> length src"
  shows "memcpy_to_page s (addr + offset) src len =
           Some (s\<lparr>frame_mem := (frame_mem s)
                   (p := write_bytes (frame_mem s p) (unat offset) (take (unat len) src))\<rparr>)"
proof -
  have "unat offset + length (take (unat len) src) \<le> 4096"
    using inpage src by (simp add: REFOS_PAGE_SIZE_def)
  from store_in_page [where pg = "pages (vspace s)" and mem = "frame_mem s", OF al pg this] src
  show ?thesis
    by (simp add: memcpy_to_page_def)
qed

lemma memcpy_from_page_in_page:
  assumes al: "page_offset addr = 0" and pg: "pages (vspace s) addr = Some p"
    and inpage: "unat offset + unat len \<le> unat REFOS_PAGE_SIZE"
    and dst: "unat len \<le> length dst"
  shows "memcpy_from_page s dst (addr + offset) len =
           Some (read_bytes (frame_mem s p) (unat offset) (unat len) @ drop (unat len) dst)"
proof -
  have "unat offset + unat len \<le> 4096"
    using inpage by (simp add: REFOS_PAGE_SIZE_def)
  from load_in_page [where pg = "pages (vspace s)" and mem = "frame_mem s", OF al pg this] dst
  show ?thesis
    by (simp add: memcpy_from_page_def)
qed

lemma write_rejected_iff:
  "(procserv_frame_write arm frame src len offset s = Some (EINVALIDPARAM, s)) =
     (offset + len > REFOS_PAGE_SIZE)"
  by (auto simp: procserv_frame_write_def flush_one split: prod.splits option.splits)

lemma read_rejected_iff:
  "(procserv_frame_read arm frame dst len offset s = Some (EINVALIDPARAM, dst, s)) =
     (offset + len > REFOS_PAGE_SIZE)"
  by (auto simp: procserv_frame_read_def flush_one split: prod.splits option.splits)

lemma faketime_calls_field:
  "faketime_field (faketime_calls n s) = faketime_field s + of_nat n"
  by (induction n arbitrary: s) (simp_all add: faketime_def)

subsection \<open>Frame transfer: round trip\<close>

text \<open>
  Claim C1, as amended. Let \<open>offset + len\<close> be at most one page, let the buffers hold
  \<open>len\<close> bytes, and let the temporary mapping of the frame succeed
  (\<^verbatim>\<open>vspace_map_pages\<close> does not return \<^verbatim>\<open>NULL\<close>). Then \<^verbatim>\<open>procserv_frame_write\<close> returns
  \<^verbatim>\<open>ESUCCESS\<close>, the following \<^verbatim>\<open>procserv_frame_read\<close> of the same range returns
  \<^verbatim>\<open>ESUCCESS\<close> as well, and the first \<open>len\<close> bytes of the destination buffer are the
  first \<open>len\<close> bytes of the data written.
\<close>

theorem frame_write_read_roundtrip:
  assumes inpage: "unat offset + unat len \<le> unat REFOS_PAGE_SIZE"
    and src: "unat len \<le> length data"
    and dst: "unat len \<le> length dst"
    and mapped: "fst (vspace_map_pages (vspace s) (cnode s) frame) \<noteq> 0"
  shows "\<exists>s1 s2 dst'.
           procserv_frame_write arm frame data len offset s = Some (ESUCCESS, s1) \<and>
           procserv_frame_read arm frame dst len offset s1 = Some (ESUCCESS, dst', s2) \<and>
           take (unat len) dst' = take (unat len) data"
proof -
  obtain addr vs where m: "vspace_map_pages (vspace s) (cnode s) frame = (addr, vs)"
    by (cases "vspace_map_pages (vspace s) (cnode s) frame")
  with mapped have nz: "addr \<noteq> 0" by simp
  from map_pages_cases [OF m] nz obtain p rest where
    al: "page_offset addr = 0" and
    free: "free_vaddrs (vspace s) = addr # rest" and
    frm: "cnode s frame = Some (Cap_Frame p seL4_PageBits)" and
    vs: "vs = (vspace s)\<lparr>free_vaddrs := rest, pages := (pages (vspace s))(addr \<mapsto> p)\<rparr>"
    by auto
  note chk = bounds_check_passes [OF inpage]
  define mem where
    "mem = (frame_mem s)
             (p := write_bytes (frame_mem s p) (unat offset) (take (unat len) data))"
  define u where
    "u = (if arm \<and> frame \<noteq> 0 then unified s @ [(frame, 0, REFOS_PAGE_SIZE)] else unified s)"
  define s1 where
    "s1 = s\<lparr>vspace := (vspace s)\<lparr>free_vaddrs := addr # rest,
                                  pages := (pages (vspace s))(addr := None)\<rparr>,
            frame_mem := mem, unified := u\<rparr>"
  have "memcpy_to_page (s\<lparr>vspace := vs\<rparr>) (addr + offset) data len =
          Some (s\<lparr>vspace := vs, frame_mem := mem\<rparr>)"
    using memcpy_to_page_in_page [OF al _ inpage src, of "s\<lparr>vspace := vs\<rparr>" p]
    by (simp add: vs mem_def)
  then have w: "procserv_frame_write arm frame data len offset s = Some (ESUCCESS, s1)"
    using chk m nz
    by (simp add: procserv_frame_write_def vs flush_one
          seL4_ARM_Page_Unify_Instruction_def vspace_unmap_pages_def s1_def u_def)
  define vs1 where
    "vs1 = (vspace s1)\<lparr>free_vaddrs := rest, pages := (pages (vspace s1))(addr \<mapsto> p)\<rparr>"
  have m1: "vspace_map_pages (vspace s1) (cnode s1) frame = (addr, vs1)"
    using nz al frm by (simp add: vspace_map_pages_def s1_def vs1_def)
  define sr where
    "sr = (if arm \<and> frame \<noteq> 0
           then seL4_ARM_Page_Unify_Instruction (s1\<lparr>vspace := vs1\<rparr>) frame 0 REFOS_PAGE_SIZE
           else s1\<lparr>vspace := vs1\<rparr>)"
  have fl: "procserv_flush arm (Some [frame]) 1 (s1\<lparr>vspace := vs1\<rparr>) = Some sr"
    by (simp add: flush_one sr_def)
  have pg: "pages (vspace sr) addr = Some p" and fm: "frame_mem sr = mem"
    by (simp_all add: sr_def vs1_def s1_def seL4_ARM_Page_Unify_Instruction_def)
  define dst' where
    "dst' = read_bytes (mem p) (unat offset) (unat len) @ drop (unat len) dst"
  have cp: "memcpy_from_page sr dst (addr + offset) len = Some dst'"
    using memcpy_from_page_in_page [OF al pg inpage dst] by (simp add: fm dst'_def)
  have "\<exists>s2. procserv_frame_read arm frame dst len offset s1 = Some (ESUCCESS, dst', s2)"
    using chk m1 nz fl cp by (simp add: procserv_frame_read_def)
  moreover have "take (unat len) dst' = take (unat len) data"
  proof -
    have l: "length (take (unat len) data) = unat len" using src by simp
    have "read_bytes (mem p) (unat offset) (unat len) = take (unat len) data"
      using read_write_bytes [of "frame_mem s p" "unat offset" "take (unat len) data"]
      unfolding l by (simp add: mem_def)
    then show ?thesis using l by (simp add: dst'_def)
  qed
  ultimately show ?thesis using w by blast
qed

text \<open>The round trip of three bytes at offset 5 of the client frame in slot 7.\<close>

theorem frame_write_read_roundtrip_witness:
  "\<exists>s1 s2 dst'.
     procserv_frame_write True 7 [1, 2, 3] 3 5 boot_state = Some (ESUCCESS, s1) \<and>
     procserv_frame_read True 7 [0, 0, 0] 3 5 s1 = Some (ESUCCESS, dst', s2) \<and>
     take (unat (3 :: size_t)) dst' = take (unat (3 :: size_t)) [1, 2, 3]"
  using frame_write_read_roundtrip
          [where offset = "5 :: size_t" and len = "3 :: size_t" and data = "[1, 2, 3]"
             and dst = "[0, 0, 0]" and s = boot_state and frame = 7 and arm = True]
  by (simp add: boot_state_def vspace_map_pages_def REFOS_PAGE_SIZE_def seL4_PageBits_def
        page_offset_def)

text \<open>
  Without the condition on the mapping the claim fails: with no free virtual address
  the write of three bytes at offset 0 returns \<^verbatim>\<open>ENOMEM\<close>, not the success status.
\<close>

theorem frame_write_no_vaddr_counterexample:
  "unat (0 :: size_t) + unat (3 :: size_t) \<le> unat REFOS_PAGE_SIZE \<and>
   procserv_frame_write True 7 [1, 2, 3] 3 0 exhausted_state = Some (ENOMEM, exhausted_state)"
  by (simp add: procserv_frame_write_def exhausted_state_def boot_state_def
        vspace_map_pages_def REFOS_PAGE_SIZE_def)

subsection \<open>Frame transfer: the bounds check\<close>

text \<open>
  The copy of two bytes to or from \<open>addr + (2 ^ 32 - 1)\<close>, the address just below a
  page-aligned \<open>addr\<close>: the first byte is the last byte of the page below, the second is
  the first byte of the page at \<open>addr\<close>. When the page below is not mapped the copy
  faults.
\<close>

lemma wrapped_store:
  assumes al: "page_offset addr = 0" and nz: "addr \<noteq> 0"
    and below: "pg (addr - REFOS_PAGE_SIZE) = Some q" and here: "pg addr = Some p"
  shows "\<exists>mem'. store_bytes pg mem (addr + 0xFFFFFFFF) [b0, b1] = Some mem' \<and>
                mem' q 4095 = b0 \<and> mem' p 0 = b1"
proof -
  note b = below_page [OF al nz]
  have h: "page_of addr = addr \<and> page_offset addr = 0"
    using in_page [OF al, of 0] by simp
  let ?m1 = "mem(q := (mem q)(4095 := b0))"
  have "store_bytes pg mem (addr + 0xFFFFFFFF) [b0, b1] = Some (?m1(p := (?m1 p)(0 := b1)))"
    using b h below here by (simp only: store_bytes.simps option.case)
  then show ?thesis by simp
qed

lemma wrapped_store_fault:
  assumes al: "page_offset addr = 0" and nz: "addr \<noteq> 0"
    and below: "pg (addr - REFOS_PAGE_SIZE) = None"
  shows "store_bytes pg mem (addr + 0xFFFFFFFF) (b # bs) = None"
  using below_page [OF al nz] below by (simp only: store_bytes.simps option.case)

lemma wrapped_load:
  assumes al: "page_offset addr = 0" and nz: "addr \<noteq> 0"
    and below: "pg (addr - REFOS_PAGE_SIZE) = Some q" and here: "pg addr = Some p"
  shows "load_bytes pg mem (addr + 0xFFFFFFFF) 2 = Some [mem q 4095, mem p 0]"
proof -
  note b = below_page [OF al nz]
  have h: "page_of addr = addr \<and> page_offset addr = 0"
    using in_page [OF al, of 0] by simp
  have two: "(2 :: nat) = Suc (Suc 0)" by simp
  show ?thesis
    unfolding two using b h below here by (simp only: load_bytes.simps option.case)
qed

lemma wrapped_load_fault:
  assumes al: "page_offset addr = 0" and nz: "addr \<noteq> 0"
    and below: "pg (addr - REFOS_PAGE_SIZE) = None"
  shows "load_bytes pg mem (addr + 0xFFFFFFFF) (Suc n) = None"
  using below_page [OF al nz] below by (simp only: load_bytes.simps option.case)

lemma wrapped_check_passes: "\<not> (0xFFFFFFFF :: size_t) + 2 > REFOS_PAGE_SIZE"
  by (simp add: REFOS_PAGE_SIZE_def)

lemma take_two: "2 \<le> length xs \<Longrightarrow> take 2 xs = [xs ! 0, xs ! 1]"
  by (cases xs; cases "tl xs") auto

text \<open>
  The calls with \<open>offset = 2 ^ 32 - 1\<close> and \<open>len = 2\<close> when the frame is mapped at \<open>addr\<close>.
\<close>

lemma wrapped_write_copies:
  assumes m: "vspace_map_pages (vspace s) (cnode s) frame = (addr, vs)" and nz: "addr \<noteq> 0"
    and frm: "cnode s frame = Some (Cap_Frame p bits)"
    and below: "pages (vspace s) (addr - REFOS_PAGE_SIZE) = Some q"
    and src: "2 \<le> length src"
  shows "\<exists>s'. procserv_frame_write arm frame src 2 0xFFFFFFFF s = Some (ESUCCESS, s') \<and>
              frame_mem s' q 4095 = src ! 0 \<and> frame_mem s' p 0 = src ! 1"
proof -
  from map_pages_cases [OF m] nz frm obtain rest where
    al: "page_offset addr = 0" and
    vs: "vs = (vspace s)\<lparr>free_vaddrs := rest, pages := (pages (vspace s))(addr \<mapsto> p)\<rparr>"
    by auto
  have ne: "addr - REFOS_PAGE_SIZE \<noteq> addr" using below_page [OF al nz] by simp
  have b: "pages vs (addr - REFOS_PAGE_SIZE) = Some q" and h: "pages vs addr = Some p"
    using below ne by (simp_all add: vs)
  from wrapped_store [where pg = "pages vs", OF al nz b h, of "frame_mem s" "src ! 0" "src ! 1"]
  obtain mem' where
    st: "store_bytes (pages vs) (frame_mem s) (addr + 0xFFFFFFFF) [src ! 0, src ! 1] = Some mem'"
    and m0: "mem' q 4095 = src ! 0" and m1: "mem' p 0 = src ! 1"
    by blast
  have cp: "memcpy_to_page (s\<lparr>vspace := vs\<rparr>) (addr + 0xFFFFFFFF) src 2 =
              Some (s\<lparr>vspace := vs, frame_mem := mem'\<rparr>)"
    using st src by (simp add: memcpy_to_page_def take_two)
  have "\<exists>s'. procserv_frame_write arm frame src 2 0xFFFFFFFF s = Some (ESUCCESS, s') \<and>
              frame_mem s' = mem'"
    using wrapped_check_passes m nz cp
    by (simp add: procserv_frame_write_def flush_one seL4_ARM_Page_Unify_Instruction_def)
  with m0 m1 show ?thesis by auto
qed

lemma wrapped_read_copies:
  assumes m: "vspace_map_pages (vspace s) (cnode s) frame = (addr, vs)" and nz: "addr \<noteq> 0"
    and frm: "cnode s frame = Some (Cap_Frame p bits)"
    and below: "pages (vspace s) (addr - REFOS_PAGE_SIZE) = Some q"
    and dst: "2 \<le> length dst"
  shows "\<exists>dst' s'. procserv_frame_read arm frame dst 2 0xFFFFFFFF s = Some (ESUCCESS, dst', s') \<and>
              take 2 dst' = [frame_mem s q 4095, frame_mem s p 0]"
proof -
  from map_pages_cases [OF m] nz frm obtain rest where
    al: "page_offset addr = 0" and
    vs: "vs = (vspace s)\<lparr>free_vaddrs := rest, pages := (pages (vspace s))(addr \<mapsto> p)\<rparr>"
    by auto
  have ne: "addr - REFOS_PAGE_SIZE \<noteq> addr" using below_page [OF al nz] by simp
  define sr where
    "sr = (if arm \<and> frame \<noteq> 0
           then seL4_ARM_Page_Unify_Instruction (s\<lparr>vspace := vs\<rparr>) frame 0 REFOS_PAGE_SIZE
           else s\<lparr>vspace := vs\<rparr>)"
  have fl: "procserv_flush arm (Some [frame]) 1 (s\<lparr>vspace := vs\<rparr>) = Some sr"
    by (simp add: flush_one sr_def)
  have b: "pages (vspace sr) (addr - REFOS_PAGE_SIZE) = Some q"
    and h: "pages (vspace sr) addr = Some p" and fm: "frame_mem sr = frame_mem s"
    using below ne by (simp_all add: sr_def vs seL4_ARM_Page_Unify_Instruction_def)
  have cp: "memcpy_from_page sr dst (addr + 0xFFFFFFFF) 2 =
              Some ([frame_mem s q 4095, frame_mem s p 0] @ drop 2 dst)"
    using wrapped_load [where pg = "pages (vspace sr)", OF al nz b h, of "frame_mem sr"] dst
    by (simp add: memcpy_from_page_def fm)
  show ?thesis
    using wrapped_check_passes m nz fl cp by (simp add: procserv_frame_read_def)
qed

lemma wrapped_faults:
  assumes m: "vspace_map_pages (vspace s) (cnode s) frame = (addr, vs)" and nz: "addr \<noteq> 0"
    and below: "pages (vspace s) (addr - REFOS_PAGE_SIZE) = None"
  shows "procserv_frame_write arm frame src 2 0xFFFFFFFF s = None \<and>
         procserv_frame_read arm frame dst 2 0xFFFFFFFF s = None"
proof -
  from map_pages_cases [OF m] nz obtain p rest where
    al: "page_offset addr = 0" and
    vs: "vs = (vspace s)\<lparr>free_vaddrs := rest, pages := (pages (vspace s))(addr \<mapsto> p)\<rparr>"
    by auto
  have ne: "addr - REFOS_PAGE_SIZE \<noteq> addr" using below_page [OF al nz] by simp
  define sr where
    "sr = (if arm \<and> frame \<noteq> 0
           then seL4_ARM_Page_Unify_Instruction (s\<lparr>vspace := vs\<rparr>) frame 0 REFOS_PAGE_SIZE
           else s\<lparr>vspace := vs\<rparr>)"
  have fl: "procserv_flush arm (Some [frame]) 1 (s\<lparr>vspace := vs\<rparr>) = Some sr"
    by (simp add: flush_one sr_def)
  have b: "pages vs (addr - REFOS_PAGE_SIZE) = None"
    and br: "pages (vspace sr) (addr - REFOS_PAGE_SIZE) = None"
    using below ne by (simp_all add: sr_def vs seL4_ARM_Page_Unify_Instruction_def)
  have two: "unat (2 :: size_t) = Suc (Suc 0)" by simp
  have w: "memcpy_to_page (s\<lparr>vspace := vs\<rparr>) (addr + 0xFFFFFFFF) src 2 = None"
  proof (cases "2 \<le> length src")
    case True
    then have "take (unat (2 :: size_t)) src = src ! 0 # [src ! 1]" by (simp add: take_two)
    with True wrapped_store_fault [where pg = "pages vs", OF al nz b] show ?thesis
      by (simp add: memcpy_to_page_def)
  next
    case False
    then show ?thesis by (simp add: memcpy_to_page_def)
  qed
  have "load_bytes (pages (vspace sr)) (frame_mem sr) (addr + 0xFFFFFFFF) (unat (2 :: size_t)) = None"
    unfolding two by (rule wrapped_load_fault [where pg = "pages (vspace sr)", OF al nz br])
  then have r: "memcpy_from_page sr dst (addr + 0xFFFFFFFF) 2 = None"
    by (simp add: memcpy_from_page_def)
  show ?thesis
    using wrapped_check_passes m nz w fl r
    by (simp add: procserv_frame_write_def procserv_frame_read_def)
qed

lemma map_failure_enomem:
  assumes chk: "\<not> offset + len > REFOS_PAGE_SIZE"
    and f: "fst (vspace_map_pages (vspace s) (cnode s) frame) = 0"
  shows "procserv_frame_write arm frame src len offset s = Some (ENOMEM, s) \<and>
         procserv_frame_read arm frame dst len offset s = Some (ENOMEM, dst, s)"
proof -
  obtain addr vs where m: "vspace_map_pages (vspace s) (cnode s) frame = (addr, vs)"
    by (cases "vspace_map_pages (vspace s) (cnode s) frame")
  with f map_pages_cases [OF m] have "addr = 0" "vs = vspace s" by auto
  with chk m show ?thesis
    by (simp add: procserv_frame_write_def procserv_frame_read_def)
qed

text \<open>
  Claim C10. The bounds check adds \<open>offset\<close> and \<open>len\<close> as 32-bit \<^verbatim>\<open>size_t\<close> values: a
  call of either function is rejected with \<^verbatim>\<open>EINVALIDPARAM\<close> exactly when
  \<open>(offset + len) mod 2 ^ 32\<close> exceeds the page size. For \<open>offset = 2 ^ 32 - 1\<close> and
  \<open>len = 2\<close> the sum exceeds one page and neither call is rejected: the call goes on to
  map the frame and to copy. When the mapping fails it returns \<^verbatim>\<open>ENOMEM\<close>. When the frame
  is mapped at \<open>addr\<close> and a frame is mapped in the page below \<open>addr\<close>, the call returns
  \<^verbatim>\<open>ESUCCESS\<close> after copying across the page boundary: the write stores the first byte
  of the buffer in the last byte of the frame below and the second in the first byte of
  the frame, and the read fetches those two bytes. When no page is mapped below \<open>addr\<close>
  the copy faults and the call does not return.
\<close>

theorem frame_bounds_check_modulo:
  "(procserv_frame_write arm frame src len offset s = Some (EINVALIDPARAM, s)) =
     ((unat offset + unat len) mod 2 ^ 32 > unat REFOS_PAGE_SIZE) \<and>
   (procserv_frame_read arm frame dst len offset s = Some (EINVALIDPARAM, dst, s)) =
     ((unat offset + unat len) mod 2 ^ 32 > unat REFOS_PAGE_SIZE) \<and>
   unat (0xFFFFFFFF :: size_t) + unat (2 :: size_t) > unat REFOS_PAGE_SIZE \<and>
   procserv_frame_write arm frame src 2 0xFFFFFFFF s \<noteq> Some (EINVALIDPARAM, s) \<and>
   procserv_frame_read arm frame dst 2 0xFFFFFFFF s \<noteq> Some (EINVALIDPARAM, dst, s) \<and>
   (fst (vspace_map_pages (vspace s) (cnode s) frame) = 0 \<longrightarrow>
      procserv_frame_write arm frame src 2 0xFFFFFFFF s = Some (ENOMEM, s) \<and>
      procserv_frame_read arm frame dst 2 0xFFFFFFFF s = Some (ENOMEM, dst, s)) \<and>
   (vspace_map_pages (vspace s) (cnode s) frame = (addr, vs) \<and> addr \<noteq> 0 \<and>
    cnode s frame = Some (Cap_Frame p bits) \<and>
    pages (vspace s) (addr - REFOS_PAGE_SIZE) = Some q \<and>
    2 \<le> length src \<and> 2 \<le> length dst \<longrightarrow>
      (\<exists>s'. procserv_frame_write arm frame src 2 0xFFFFFFFF s = Some (ESUCCESS, s') \<and>
            frame_mem s' q 4095 = src ! 0 \<and> frame_mem s' p 0 = src ! 1) \<and>
      (\<exists>dst' s'. procserv_frame_read arm frame dst 2 0xFFFFFFFF s = Some (ESUCCESS, dst', s') \<and>
            take 2 dst' = [frame_mem s q 4095, frame_mem s p 0])) \<and>
   (vspace_map_pages (vspace s) (cnode s) frame = (addr, vs) \<and> addr \<noteq> 0 \<and>
    pages (vspace s) (addr - REFOS_PAGE_SIZE) = None \<longrightarrow>
      procserv_frame_write arm frame src 2 0xFFFFFFFF s = None \<and>
      procserv_frame_read arm frame dst 2 0xFFFFFFFF s = None)"
proof -
  have w: "(procserv_frame_write arm frame src len offset s = Some (EINVALIDPARAM, s)) =
     ((unat offset + unat len) mod 2 ^ 32 > unat REFOS_PAGE_SIZE)" for len offset
    unfolding write_rejected_iff bounds_check_wraps by (simp add: REFOS_PAGE_SIZE_def)
  have r: "(procserv_frame_read arm frame dst len offset s = Some (EINVALIDPARAM, dst, s)) =
     ((unat offset + unat len) mod 2 ^ 32 > unat REFOS_PAGE_SIZE)" for len offset
    unfolding read_rejected_iff bounds_check_wraps by (simp add: REFOS_PAGE_SIZE_def)
  have big: "unat (0xFFFFFFFF :: size_t) + unat (2 :: size_t) > unat REFOS_PAGE_SIZE"
    by (simp add: REFOS_PAGE_SIZE_def)
  note pass = wrapped_check_passes
  have nw: "procserv_frame_write arm frame src 2 0xFFFFFFFF s \<noteq> Some (EINVALIDPARAM, s)"
    using pass by (simp add: write_rejected_iff)
  have nr: "procserv_frame_read arm frame dst 2 0xFFFFFFFF s \<noteq> Some (EINVALIDPARAM, dst, s)"
    using pass by (simp add: read_rejected_iff)
  show ?thesis
    using w r big nw nr
          map_failure_enomem [OF pass, of s frame arm src dst]
          wrapped_write_copies [of s frame addr vs p bits q src arm]
          wrapped_read_copies [of s frame addr vs p bits q dst arm]
          wrapped_faults [of s frame addr vs arm src dst]
    by blast
qed

text \<open>
  A write of 100 bytes at offset 4000 is rejected. The calls with offset \<open>2 ^ 32 - 1\<close> and
  length 2 are not: with no free virtual address they return \<^verbatim>\<open>ENOMEM\<close>; with a frame
  mapped in the page below, the write returns \<^verbatim>\<open>ESUCCESS\<close> with byte 1 in the last byte of
  that frame and byte 2 in the first byte of the client's frame, and the read returns
  \<^verbatim>\<open>ESUCCESS\<close>; in the start-up state, where nothing is mapped below, neither returns.
\<close>

theorem frame_bounds_check_modulo_witness:
  "procserv_frame_write True 7 (replicate 100 0) 100 4000 boot_state
     = Some (EINVALIDPARAM, boot_state) \<and>
   procserv_frame_write True 7 [1, 2] 2 0xFFFFFFFF exhausted_state
     = Some (ENOMEM, exhausted_state) \<and>
   (\<exists>s'. procserv_frame_write True 7 [1, 2] 2 0xFFFFFFFF neighbour_state = Some (ESUCCESS, s') \<and>
         frame_mem s' 0x30000000 4095 = 1 \<and> frame_mem s' 0x20000000 0 = 2) \<and>
   (\<exists>dst' s'. procserv_frame_read True 7 [9, 9] 2 0xFFFFFFFF neighbour_state
                 = Some (ESUCCESS, dst', s') \<and>
         take 2 dst' = [0, 0]) \<and>
   procserv_frame_write True 7 [1, 2] 2 0xFFFFFFFF boot_state = None \<and>
   procserv_frame_read True 7 [9, 9] 2 0xFFFFFFFF boot_state = None"
proof -
  have rej: "(unat (4000 :: size_t) + unat (100 :: size_t)) mod 2 ^ 32 > unat REFOS_PAGE_SIZE"
    by (simp add: REFOS_PAGE_SIZE_def)
  have ex: "fst (vspace_map_pages (vspace exhausted_state) (cnode exhausted_state) 7) = 0"
    by (simp add: exhausted_state_def boot_state_def vspace_map_pages_def)
  have nb: "vspace_map_pages (vspace neighbour_state) (cnode neighbour_state) 7 =
              (0x10000000, \<lparr>free_vaddrs = [],
                 pages = [0x0FFFF000 \<mapsto> 0x30000000, 0x10000000 \<mapsto> 0x20000000]\<rparr>) \<and>
            (0x10000000 :: vaddr) \<noteq> 0 \<and>
            cnode neighbour_state 7 = Some (Cap_Frame 0x20000000 12) \<and>
            pages (vspace neighbour_state) (0x10000000 - REFOS_PAGE_SIZE) = Some 0x30000000 \<and>
            2 \<le> length [1 :: byte, 2] \<and> 2 \<le> length [9 :: byte, 9]"
    by (simp add: neighbour_state_def boot_state_def vspace_map_pages_def seL4_PageBits_def
          page_offset_def REFOS_PAGE_SIZE_def)
  have bo: "vspace_map_pages (vspace boot_state) (cnode boot_state) 7 =
              (0x10000000, \<lparr>free_vaddrs = [], pages = [0x10000000 \<mapsto> 0x20000000]\<rparr>) \<and>
            (0x10000000 :: vaddr) \<noteq> 0 \<and>
            pages (vspace boot_state) (0x10000000 - REFOS_PAGE_SIZE) = None"
    by (simp add: boot_state_def vspace_map_pages_def seL4_PageBits_def
          page_offset_def REFOS_PAGE_SIZE_def)
  have mem0: "frame_mem neighbour_state 0x30000000 4095 = 0"
             "frame_mem neighbour_state 0x20000000 0 = 0"
    by (simp_all add: neighbour_state_def boot_state_def)
  show ?thesis
    using frame_bounds_check_modulo
            [where arm = True and frame = 7 and src = "replicate 100 0" and len = 100
               and offset = 4000 and s = boot_state] rej
          frame_bounds_check_modulo
            [where arm = True and frame = 7 and src = "[1, 2]" and s = exhausted_state] ex
          frame_bounds_check_modulo
            [where arm = True and frame = 7 and src = "[1, 2]" and dst = "[9, 9]"
               and s = neighbour_state and addr = "0x10000000"
               and vs = "\<lparr>free_vaddrs = [],
                 pages = [0x0FFFF000 \<mapsto> 0x30000000, 0x10000000 \<mapsto> 0x20000000]\<rparr>"
               and p = "0x20000000" and bits = 12 and q = "0x30000000"] nb mem0
          frame_bounds_check_modulo
            [where arm = True and frame = 7 and src = "[1, 2]" and dst = "[9, 9]"
               and s = boot_state and addr = "0x10000000"
               and vs = "\<lparr>free_vaddrs = [], pages = [0x10000000 \<mapsto> 0x20000000]\<rparr>"] bo
    by simp
qed

text \<open>
  Claim C2 fails on the code. For \<open>offset = 2 ^ 32 - 1\<close> and \<open>len = 2\<close> the sum exceeds
  one page, yet neither function returns \<^verbatim>\<open>EINVALIDPARAM\<close>: the 32-bit sum is 1, the
  check passes, the frame is mapped and \<^verbatim>\<open>memcpy\<close> is called on the two bytes that
  start one byte before the mapped page.
\<close>

theorem frame_bounds_check_overflow:
  "unat (0xFFFFFFFF :: size_t) + unat (2 :: size_t) > unat REFOS_PAGE_SIZE \<and>
   (0xFFFFFFFF :: size_t) + 2 = 1 \<and>
   procserv_frame_write True 7 [1, 2] 2 0xFFFFFFFF boot_state = None \<and>
   procserv_frame_read True 7 [0, 0] 2 0xFFFFFFFF boot_state = None"
proof -
  have "unat (0xFFFFFFFF :: size_t) + unat (2 :: size_t) > unat REFOS_PAGE_SIZE"
    by (simp add: REFOS_PAGE_SIZE_def)
  moreover have "(0xFFFFFFFF :: size_t) + 2 = 1" by simp
  moreover have "procserv_frame_write True 7 [1, 2] 2 0xFFFFFFFF boot_state = None"
    by (simp add: procserv_frame_write_def boot_state_def vspace_map_pages_def
          seL4_PageBits_def REFOS_PAGE_SIZE_def memcpy_to_page_def page_of_def
          page_offset_def)
  moreover have "procserv_frame_read True 7 [0, 0] 2 0xFFFFFFFF boot_state = None"
    by (simp add: procserv_frame_read_def boot_state_def vspace_map_pages_def
          seL4_PageBits_def REFOS_PAGE_SIZE_def memcpy_from_page_def page_of_def
          page_offset_def flush_one seL4_ARM_Page_Unify_Instruction_def load_bytes_numeral)
  ultimately show ?thesis by simp
qed

subsection \<open>faketime\<close>

text \<open>
  Claim C9, as amended. Of two successive calls of \<^verbatim>\<open>faketime\<close> the later returns the
  value of the earlier plus one modulo \<open>2 ^ 32\<close>: it is strictly greater as long as the
  earlier value is below \<open>2 ^ 32 - 1\<close>, and it is 0 when the earlier value is
  \<open>2 ^ 32 - 1\<close>.
\<close>

theorem faketime_successor:
  "faketime s = (t1, s1) \<Longrightarrow> faketime s1 = (t2, s2) \<Longrightarrow>
     t2 = t1 + 1 \<and> (unat t1 < 4294967295 \<longrightarrow> t1 < t2) \<and> (unat t1 = 4294967295 \<longrightarrow> t2 = 0)"
proof -
  assume a: "faketime s = (t1, s1)" and b: "faketime s1 = (t2, s2)"
  from a b have eq: "t2 = t1 + 1" by (auto simp: faketime_def)
  have lt: "t1 < t1 + 1" if "unat t1 < 4294967295"
    using that by (simp add: word_less_nat_alt unat_word_ariths)
  have wrap: "t1 + 1 = 0" if "unat t1 = 4294967295"
  proof -
    have "t1 = of_nat (unat t1)" by simp
    also have "\<dots> = (4294967295 :: 32 word)" unfolding that by simp
    finally show ?thesis by simp
  qed
  show ?thesis using eq lt wrap by blast
qed

text \<open>The first two calls after start-up return 0 and 1.\<close>

theorem faketime_successor_witness:
  "fst (faketime boot_state) = 0 \<and>
   fst (faketime (snd (faketime boot_state))) = 1 \<and>
   fst (faketime boot_state) < fst (faketime (snd (faketime boot_state)))"
  using faketime_successor
          [of boot_state "fst (faketime boot_state)" "snd (faketime boot_state)"
              "fst (faketime (snd (faketime boot_state)))"
              "snd (faketime (snd (faketime boot_state)))"]
  by (simp add: faketime_def boot_state_def)

text \<open>
  The claim as stated fails after \<open>2 ^ 32 - 1\<close> calls from start-up: the next call
  returns \<open>2 ^ 32 - 1\<close> and the call after it returns 0, which is not greater.
\<close>

theorem faketime_wraps_counterexample:
  "fst (faketime (faketime_calls 4294967295 boot_state)) = 4294967295 \<and>
   fst (faketime (snd (faketime (faketime_calls 4294967295 boot_state)))) = 0 \<and>
   \<not> fst (faketime (faketime_calls 4294967295 boot_state))
       < fst (faketime (snd (faketime (faketime_calls 4294967295 boot_state))))"
  by (simp add: faketime_def faketime_calls_field boot_state_def)

subsection \<open>Frame transfer: no mapping is left behind\<close>

text \<open>Evaluation of the frame functions in the example states.\<close>

lemmas example_simps = boot_state_def exhausted_state_def no_endpoint_state_def
  vspace_map_pages_def vspace_unmap_pages_def REFOS_PAGE_SIZE_def seL4_PageBits_def
  page_of_def page_offset_def load_bytes_numeral
  memcpy_to_page_def memcpy_from_page_def flush_one seL4_ARM_Page_Unify_Instruction_def

lemma write_leaves_no_mapping:
  assumes r: "procserv_frame_write arm frame src len offset s = Some (st, s')"
  shows "pages (vspace s') \<subseteq>\<^sub>m pages (vspace s) \<and>
         free_vaddrs (vspace s') = free_vaddrs (vspace s) \<and>
         (st = ESUCCESS \<longrightarrow> pages (vspace s') (fst (vspace_map_pages (vspace s) (cnode s) frame)) = None)"
proof -
  obtain addr vs where m: "vspace_map_pages (vspace s) (cnode s) frame = (addr, vs)"
    by (cases "vspace_map_pages (vspace s) (cnode s) frame")
  show ?thesis
  proof (cases "offset + len > REFOS_PAGE_SIZE")
    case True
    with r show ?thesis by (auto simp: procserv_frame_write_def)
  next
    case chk: False
    from map_pages_cases [OF m] show ?thesis
    proof
      assume "addr = 0 \<and> vs = vspace s"
      then show ?thesis using r chk m by (auto simp: procserv_frame_write_def)
    next
      assume "addr \<noteq> 0 \<and> page_offset addr = 0 \<and>
              (\<exists>p rest. free_vaddrs (vspace s) = addr # rest \<and>
                cnode s frame = Some (Cap_Frame p seL4_PageBits) \<and>
                vs = (vspace s)\<lparr>free_vaddrs := rest, pages := (pages (vspace s))(addr \<mapsto> p)\<rparr>)"
      then show ?thesis using r chk m
        by (auto simp: procserv_frame_write_def memcpy_to_page_def flush_one
              seL4_ARM_Page_Unify_Instruction_def vspace_unmap_pages_def map_le_def
              split: option.splits if_splits)
    qed
  qed
qed

lemma read_leaves_no_mapping:
  assumes r: "procserv_frame_read arm frame dst len offset s = Some (st, dst', s')"
  shows "pages (vspace s') \<subseteq>\<^sub>m pages (vspace s) \<and>
         free_vaddrs (vspace s') = free_vaddrs (vspace s) \<and>
         (st = ESUCCESS \<longrightarrow> pages (vspace s') (fst (vspace_map_pages (vspace s) (cnode s) frame)) = None)"
proof -
  obtain addr vs where m: "vspace_map_pages (vspace s) (cnode s) frame = (addr, vs)"
    by (cases "vspace_map_pages (vspace s) (cnode s) frame")
  show ?thesis
  proof (cases "offset + len > REFOS_PAGE_SIZE")
    case True
    with r show ?thesis by (auto simp: procserv_frame_read_def)
  next
    case chk: False
    from map_pages_cases [OF m] show ?thesis
    proof
      assume "addr = 0 \<and> vs = vspace s"
      then show ?thesis using r chk m by (auto simp: procserv_frame_read_def)
    next
      assume "addr \<noteq> 0 \<and> page_offset addr = 0 \<and>
              (\<exists>p rest. free_vaddrs (vspace s) = addr # rest \<and>
                cnode s frame = Some (Cap_Frame p seL4_PageBits) \<and>
                vs = (vspace s)\<lparr>free_vaddrs := rest, pages := (pages (vspace s))(addr \<mapsto> p)\<rparr>)"
      then show ?thesis using r chk m
        by (auto simp: procserv_frame_read_def memcpy_from_page_def flush_one
              seL4_ARM_Page_Unify_Instruction_def vspace_unmap_pages_def map_le_def
              split: option.splits if_splits)
    qed
  qed
qed

text \<open>
  Claim C3. Whenever \<^verbatim>\<open>procserv_frame_write\<close> or \<^verbatim>\<open>procserv_frame_read\<close> returns, with
  whatever status and for whatever length, every page mapped in the server's address
  space after the call was mapped before it, the virtual address used for the
  temporary mapping is free again, and after a successful call no page is mapped at
  that address. When the bounds check passes and the mapping fails, both functions
  return \<^verbatim>\<open>ENOMEM\<close> and the state, the frame contents and the destination buffer are
  as before the call.
\<close>

theorem frame_transfer_leaves_no_mapping:
  "(procserv_frame_write arm frame src len offset s = Some (st, s') \<longrightarrow>
      pages (vspace s') \<subseteq>\<^sub>m pages (vspace s) \<and>
      free_vaddrs (vspace s') = free_vaddrs (vspace s) \<and>
      (st = ESUCCESS \<longrightarrow>
         pages (vspace s') (fst (vspace_map_pages (vspace s) (cnode s) frame)) = None)) \<and>
   (procserv_frame_read arm frame dst len offset s = Some (st2, dst2, s2) \<longrightarrow>
      pages (vspace s2) \<subseteq>\<^sub>m pages (vspace s) \<and>
      free_vaddrs (vspace s2) = free_vaddrs (vspace s) \<and>
      (st2 = ESUCCESS \<longrightarrow>
         pages (vspace s2) (fst (vspace_map_pages (vspace s) (cnode s) frame)) = None)) \<and>
   (\<not> offset + len > REFOS_PAGE_SIZE \<and>
    fst (vspace_map_pages (vspace s) (cnode s) frame) = 0 \<longrightarrow>
      procserv_frame_write arm frame src len offset s = Some (ENOMEM, s) \<and>
      procserv_frame_read arm frame dst len offset s = Some (ENOMEM, dst, s))"
  using write_leaves_no_mapping [of arm frame src len offset s st s']
        read_leaves_no_mapping [of arm frame dst len offset s st2 dst2 s2]
        map_failure_enomem [of offset len s frame arm src dst]
  by blast

text \<open>
  In the start-up state a write and a read of two bytes succeed and leave the address
  \<open>0x10000000\<close> free and unmapped; with no free virtual address both return \<^verbatim>\<open>ENOMEM\<close>
  and change nothing.
\<close>

theorem frame_transfer_leaves_no_mapping_witness:
  "(\<exists>s'. procserv_frame_write True 7 [1, 2] 2 0 boot_state = Some (ESUCCESS, s') \<and>
         pages (vspace s') \<subseteq>\<^sub>m pages (vspace boot_state) \<and>
         free_vaddrs (vspace s') = [0x10000000] \<and>
         pages (vspace s') 0x10000000 = None) \<and>
   (\<exists>dst' s'. procserv_frame_read True 7 [0, 0] 2 0 boot_state = Some (ESUCCESS, dst', s') \<and>
         pages (vspace s') \<subseteq>\<^sub>m pages (vspace boot_state) \<and>
         free_vaddrs (vspace s') = [0x10000000] \<and>
         pages (vspace s') 0x10000000 = None) \<and>
   procserv_frame_write True 7 [1, 2] 2 0 exhausted_state = Some (ENOMEM, exhausted_state) \<and>
   procserv_frame_read True 7 [0, 0] 2 0 exhausted_state = Some (ENOMEM, [0, 0], exhausted_state)"
proof -
  obtain s1 where w: "procserv_frame_write True 7 [1, 2] 2 0 boot_state = Some (ESUCCESS, s1)"
    by (simp add: procserv_frame_write_def example_simps)
  obtain d2 s2 where r: "procserv_frame_read True 7 [0, 0] 2 0 boot_state = Some (ESUCCESS, d2, s2)"
    by (simp add: procserv_frame_read_def example_simps)
  have m: "fst (vspace_map_pages (vspace boot_state) (cnode boot_state) 7) = 0x10000000"
    and f: "free_vaddrs (vspace boot_state) = [0x10000000]"
    by (simp_all add: example_simps)
  have x: "\<not> (0 :: size_t) + 2 > REFOS_PAGE_SIZE \<and>
           fst (vspace_map_pages (vspace exhausted_state) (cnode exhausted_state) 7) = 0"
    by (simp add: example_simps)
  show ?thesis
    using frame_transfer_leaves_no_mapping
            [where arm = True and frame = 7 and src = "[1, 2]" and dst = "[0, 0]" and len = 2
               and offset = 0 and s = boot_state and st = ESUCCESS and s' = s1
               and ?st2.0 = ESUCCESS and ?dst2.0 = d2 and ?s2.0 = s2]
          frame_transfer_leaves_no_mapping
            [where arm = True and frame = 7 and src = "[1, 2]" and dst = "[0, 0]" and len = 2
               and offset = 0 and s = exhausted_state]
          w r m f x
    by auto
qed

subsection \<open>procserv_mint_badge\<close>

lemma alloc_path_cases:
  "vka_cspace_alloc_path v res = (error, v', path) \<Longrightarrow>
     (error \<noteq> 0 \<and> free_cslots v = [] \<and> v' = v \<and> path = res) \<or>
     (error = 0 \<and> (\<exists>slot rest. free_cslots v = slot # rest \<and> v' = v\<lparr>free_cslots := rest\<rparr> \<and>
         path = vka_cspace_make_path v slot))"
  by (auto simp: vka_cspace_alloc_path_def seL4_NotEnoughMemory_def seL4_NoError_def
        split: list.splits)

lemma alloc_then_free:
  "free_cslots v = slot # rest \<Longrightarrow> vka_cspace_free (v\<lparr>free_cslots := rest\<rparr>) slot = v"
  by (cases v) (simp add: vka_cspace_free_def)

lemma mint_cases:
  "vka_cnode_mint cn dest src rights badge = (error, cn') \<Longrightarrow>
     (error \<noteq> 0 \<and> cn' = cn) \<or>
     (error = 0 \<and> cn (capPtr dest) = None \<and>
        (\<exists>c c'. cn (capPtr src) = Some c \<and> derive_cap c rights badge = Some c' \<and>
           cn' = cn(capPtr dest \<mapsto> c')))"
  by (auto simp: vka_cnode_mint_def seL4_FailedLookup_def seL4_DeleteFirst_def
        seL4_RevokeFirst_def seL4_NoError_def split: option.splits)

lemma make_path_simps:
  "capPtr (vka_cspace_make_path v slot) = slot"
  "capDepth (vka_cspace_make_path v slot) = 32"
  "root (vka_cspace_make_path v slot) = cspace_root v"
  "vka_cspace_make_path v slot \<noteq> zero_path"
  "zero_path \<noteq> vka_cspace_make_path v slot"
  by (simp_all add: vka_cspace_make_path_def zero_path_def)

lemma mint_badge_cases:
  assumes r: "procserv_mint_badge badge s = (path, s')"
  shows "(path = zero_path \<and> s' = s) \<or>
         (\<exists>slot rest c c'.
            free_cslots (vka s) = slot # rest \<and>
            path = vka_cspace_make_path (vka s) slot \<and>
            cnode s slot = None \<and>
            cnode s (endpoint s) = Some c \<and>
            derive_cap c {seL4_CanGrant, seL4_CanWrite} badge = Some c' \<and>
            s' = s\<lparr>vka := (vka s)\<lparr>free_cslots := rest\<rparr>, cnode := (cnode s)(slot \<mapsto> c')\<rparr>)"
proof -
  obtain error v p where a: "vka_cspace_alloc_path (vka s) zero_path = (error, v, p)"
    by (cases "vka_cspace_alloc_path (vka s) zero_path")
  from alloc_path_cases [OF a] show ?thesis
  proof
    assume "error \<noteq> 0 \<and> free_cslots (vka s) = [] \<and> v = vka s \<and> p = zero_path"
    with r a show ?thesis by (auto simp: procserv_mint_badge_def)
  next
    assume "error = 0 \<and> (\<exists>slot rest. free_cslots (vka s) = slot # rest \<and>
              v = (vka s)\<lparr>free_cslots := rest\<rparr> \<and> p = vka_cspace_make_path (vka s) slot)"
    then obtain slot rest where e: "error = 0" and free: "free_cslots (vka s) = slot # rest"
      and v: "v = (vka s)\<lparr>free_cslots := rest\<rparr>" and p: "p = vka_cspace_make_path (vka s) slot"
      by blast
    obtain merr cn where m: "vka_cnode_mint (cnode s) p (vka_cspace_make_path v (endpoint s))
        {seL4_CanGrant, seL4_CanWrite} (seL4_CapData_Badge_new badge) = (merr, cn)"
      by (cases "vka_cnode_mint (cnode s) p (vka_cspace_make_path v (endpoint s))
        {seL4_CanGrant, seL4_CanWrite} (seL4_CapData_Badge_new badge)")
    from mint_cases [OF m] show ?thesis
    proof
      assume f: "merr \<noteq> 0 \<and> cn = cnode s"
      have "vka_cspace_free v (capPtr p) = vka s"
        using alloc_then_free [OF free] by (simp add: v p make_path_simps)
      with f r a e m show ?thesis by (simp add: procserv_mint_badge_def)
    next
      assume "merr = 0 \<and> cnode s (capPtr p) = None \<and>
        (\<exists>c c'. cnode s (capPtr (vka_cspace_make_path v (endpoint s))) = Some c \<and>
           derive_cap c {seL4_CanGrant, seL4_CanWrite} (seL4_CapData_Badge_new badge) = Some c' \<and>
           cn = (cnode s)(capPtr p \<mapsto> c'))"
      with r a e m free v p show ?thesis
        by (auto simp: procserv_mint_badge_def make_path_simps seL4_CapData_Badge_new_def)
    qed
  qed
qed

text \<open>
  Claim C4. Let the slot of the main endpoint hold an endpoint capability with at least
  the grant and write rights (\<^verbatim>\<open>initialise\<close> allocates it with all rights). When
  \<^verbatim>\<open>procserv_mint_badge\<close> succeeds, that is, returns a path other than the zeroed one,
  the path is that of a slot taken from the allocator's free slots, the slot was empty
  before the call, and after the call it holds a capability to the same endpoint object
  whose rights are exactly grant and write and whose badge is the given value; no other
  slot changes.
\<close>

theorem mint_badge_success:
  assumes r: "procserv_mint_badge badge s = (path, s')"
    and ok: "path \<noteq> zero_path"
    and ep: "cnode s (endpoint s) = Some (Cap_Endpoint e r b)"
    and rights: "{seL4_CanGrant, seL4_CanWrite} \<subseteq> r"
  shows "\<exists>rest.
           free_cslots (vka s) = capPtr path # rest \<and>
           free_cslots (vka s') = rest \<and>
           cnode s (capPtr path) = None \<and>
           path = vka_cspace_make_path (vka s) (capPtr path) \<and>
           cnode s' = (cnode s)(capPtr path \<mapsto>
                        Cap_Endpoint e {seL4_CanGrant, seL4_CanWrite} badge)"
proof -
  from mint_badge_cases [OF r] ok obtain slot rest c c' where
    free: "free_cslots (vka s) = slot # rest" and
    p: "path = vka_cspace_make_path (vka s) slot" and
    empty: "cnode s slot = None" and
    c: "cnode s (endpoint s) = Some c" and
    d: "derive_cap c {seL4_CanGrant, seL4_CanWrite} badge = Some c'" and
    s': "s' = s\<lparr>vka := (vka s)\<lparr>free_cslots := rest\<rparr>, cnode := (cnode s)(slot \<mapsto> c')\<rparr>"
    by blast
  from c ep d rights have "c' = Cap_Endpoint e {seL4_CanGrant, seL4_CanWrite} badge"
    by (auto split: if_splits)
  with free p empty s' show ?thesis by (simp add: make_path_simps)
qed

text \<open>Minting badge 42 in the start-up state takes slot 10.\<close>

theorem mint_badge_success_witness:
  "\<exists>s'. procserv_mint_badge 42 boot_state = (\<lparr>capPtr = 10, capDepth = 32, root = 2\<rparr>, s') \<and>
        free_cslots (vka boot_state) = [10, 11, 12] \<and>
        free_cslots (vka s') = [11, 12] \<and>
        cnode boot_state 10 = None \<and>
        cnode s' 10 = Some (Cap_Endpoint 1 {seL4_CanGrant, seL4_CanWrite} 42)"
proof -
  obtain s' where r: "procserv_mint_badge 42 boot_state = (\<lparr>capPtr = 10, capDepth = 32, root = 2\<rparr>, s')"
    by (simp add: procserv_mint_badge_def boot_state_def vka_cspace_alloc_path_def
          vka_cspace_make_path_def vka_cnode_mint_def seL4_NoError_def seL4_AllRights_def
          seL4_CapData_Badge_new_def)
  have "cnode boot_state (endpoint boot_state) = Some (Cap_Endpoint 1 seL4_AllRights 0)"
    and "{seL4_CanGrant, seL4_CanWrite} \<subseteq> seL4_AllRights"
    and "\<lparr>capPtr = 10, capDepth = 32, root = 2\<rparr> \<noteq> zero_path"
    by (simp_all add: boot_state_def seL4_AllRights_def zero_path_def)
  from mint_badge_success [OF r this(3) this(1) this(2)] r show ?thesis
    by (auto simp: boot_state_def)
qed

text \<open>
  Claim C5. When the slot allocation fails, \<^verbatim>\<open>procserv_mint_badge\<close> returns the zeroed
  path. When the allocation succeeds and the mint fails, it frees the slot and returns
  the zeroed path. In both cases the state after the call is the state before it, the
  allocator's free slots included; and whenever the zeroed path is returned the state is
  unchanged.
\<close>

theorem mint_badge_failure:
  "(fst (vka_cspace_alloc_path (vka s) zero_path) \<noteq> 0 \<longrightarrow>
      procserv_mint_badge badge s = (zero_path, s)) \<and>
   (vka_cspace_alloc_path (vka s) zero_path = (0, v, path) \<and>
    fst (vka_cnode_mint (cnode s) path (vka_cspace_make_path v (endpoint s))
           {seL4_CanGrant, seL4_CanWrite} (seL4_CapData_Badge_new badge)) \<noteq> 0 \<longrightarrow>
      procserv_mint_badge badge s = (zero_path, s)) \<and>
   (fst (procserv_mint_badge badge s) = zero_path \<longrightarrow>
      snd (procserv_mint_badge badge s) = s)"
proof (intro conjI impI)
  assume f: "fst (vka_cspace_alloc_path (vka s) zero_path) \<noteq> 0"
  obtain error v' p where a: "vka_cspace_alloc_path (vka s) zero_path = (error, v', p)"
    by (cases "vka_cspace_alloc_path (vka s) zero_path")
  with f alloc_path_cases [OF a] have "error \<noteq> 0" "v' = vka s" "p = zero_path" by auto
  with a show "procserv_mint_badge badge s = (zero_path, s)"
    by (simp add: procserv_mint_badge_def)
next
  assume h: "vka_cspace_alloc_path (vka s) zero_path = (0, v, path) \<and>
    fst (vka_cnode_mint (cnode s) path (vka_cspace_make_path v (endpoint s))
           {seL4_CanGrant, seL4_CanWrite} (seL4_CapData_Badge_new badge)) \<noteq> 0"
  then have a: "vka_cspace_alloc_path (vka s) zero_path = (0, v, path)" by simp
  from alloc_path_cases [OF a] obtain slot rest where free: "free_cslots (vka s) = slot # rest"
    and v: "v = (vka s)\<lparr>free_cslots := rest\<rparr>" and p: "path = vka_cspace_make_path (vka s) slot"
    by auto
  obtain merr cn where m: "vka_cnode_mint (cnode s) path (vka_cspace_make_path v (endpoint s))
        {seL4_CanGrant, seL4_CanWrite} (seL4_CapData_Badge_new badge) = (merr, cn)"
    by (cases "vka_cnode_mint (cnode s) path (vka_cspace_make_path v (endpoint s))
        {seL4_CanGrant, seL4_CanWrite} (seL4_CapData_Badge_new badge)")
  with h mint_cases [OF m] have f: "merr \<noteq> 0" "cn = cnode s" by auto
  have "vka_cspace_free v (capPtr path) = vka s"
    using alloc_then_free [OF free] by (simp add: v p make_path_simps)
  with f a m show "procserv_mint_badge badge s = (zero_path, s)"
    by (simp add: procserv_mint_badge_def)
next
  assume z: "fst (procserv_mint_badge badge s) = zero_path"
  obtain p s' where r: "procserv_mint_badge badge s = (p, s')"
    by (cases "procserv_mint_badge badge s")
  with z mint_badge_cases [OF r] show "snd (procserv_mint_badge badge s) = s"
    by (auto simp: make_path_simps)
qed

text \<open>
  With no free slot the allocation fails; with the endpoint slot empty the mint fails
  and slot 10 is free again after the call.
\<close>

theorem mint_badge_failure_witness:
  "procserv_mint_badge 42 exhausted_state = (zero_path, exhausted_state) \<and>
   procserv_mint_badge 42 no_endpoint_state = (zero_path, no_endpoint_state) \<and>
   free_cslots (vka (snd (procserv_mint_badge 42 no_endpoint_state))) = [10, 11, 12]"
proof -
  have a: "fst (vka_cspace_alloc_path (vka exhausted_state) zero_path) \<noteq> 0"
    by (simp add: exhausted_state_def boot_state_def vka_cspace_alloc_path_def
          seL4_NotEnoughMemory_def)
  have b: "vka_cspace_alloc_path (vka no_endpoint_state) zero_path =
             (0, \<lparr>free_cslots = [11, 12], cspace_root = 2\<rparr>,
              \<lparr>capPtr = 10, capDepth = 32, root = 2\<rparr>) \<and>
           fst (vka_cnode_mint (cnode no_endpoint_state) \<lparr>capPtr = 10, capDepth = 32, root = 2\<rparr>
                  (vka_cspace_make_path \<lparr>free_cslots = [11, 12], cspace_root = 2\<rparr>
                     (endpoint no_endpoint_state))
                  {seL4_CanGrant, seL4_CanWrite} (seL4_CapData_Badge_new 42)) \<noteq> 0"
    by (simp add: no_endpoint_state_def boot_state_def vka_cspace_alloc_path_def
          vka_cspace_make_path_def vka_cnode_mint_def seL4_NoError_def seL4_FailedLookup_def)
  have c: "free_cslots (vka no_endpoint_state) = [10, 11, 12]"
    by (simp add: no_endpoint_state_def boot_state_def)
  show ?thesis
    using mint_badge_failure [where s = exhausted_state and badge = 42] a
          mint_badge_failure [where s = no_endpoint_state and badge = 42
             and v = "\<lparr>free_cslots = [11, 12], cspace_root = 2\<rparr>"
             and path = "\<lparr>capPtr = 10, capDepth = 32, root = 2\<rparr>"] b c
    by simp
qed

subsection \<open>procserv_get_irq_handler\<close>




subsection \<open>procserv_find_device\<close>

lemma unat_power2:
  assumes "j < 32" shows "unat ((2 :: 32 word) ^ j) = 2 ^ j"
proof -
  have lt: "(2 :: nat) ^ j < 2 ^ 32"
    using assms power_strict_increasing [of j 32 "2 :: nat"] by simp
  have "unat (word_of_nat (2 ^ j) :: 32 word) = 2 ^ j mod 2 ^ LENGTH(32)"
    by (rule unat_of_nat)
  also have "\<dots> = 2 ^ j" using lt by simp
  finally show ?thesis by simp
qed

lemma shift_is_power:
  "j < 32 \<Longrightarrow> (push_bit j 1 = (sz :: c_int)) = (unat sz = 2 ^ j)"
proof -
  assume j: "j < 32"
  have p: "push_bit j (1 :: c_int) = 2 ^ j" by (simp add: push_bit_eq_mult)
  have u: "unat ((2 :: c_int) ^ j) = 2 ^ j" using j by (rule unat_power2)
  show ?thesis
  proof
    assume "push_bit j 1 = sz"
    with p u show "unat sz = 2 ^ j" by simp
  next
    assume "unat sz = 2 ^ j"
    with u have "unat sz = unat ((2 :: c_int) ^ j)" by simp
    then have "sz = 2 ^ j" by (simp only: word_unat_eq_iff)
    with p show "push_bit j 1 = sz" by simp
  qed
qed

lemma find_device_loop_none:
  "(procserv_find_device_loop sz i = - 1) = (\<forall>j. i \<le> j \<and> j < 32 \<longrightarrow> unat sz \<noteq> 2 ^ j)"
proof (induction sz i rule: procserv_find_device_loop.induct)
  case (1 sz i)
  show ?case
  proof (cases "i < 32")
    case False
    then show ?thesis by (simp add: procserv_find_device_loop.simps [of sz i])
  next
    case True
    show ?thesis
    proof (cases "push_bit i 1 = sz")
      case hit: True
      with True have "unat sz = 2 ^ i" using shift_is_power [of i sz] by simp
      with True hit show ?thesis
        by (auto simp: procserv_find_device_loop.simps [of sz i])
    next
      case miss: False
      with True have ne: "unat sz \<noteq> 2 ^ i" using shift_is_power [of i sz] by simp
      have "(\<forall>j. i \<le> j \<and> j < 32 \<longrightarrow> unat sz \<noteq> 2 ^ j) =
            (\<forall>j. i + 1 \<le> j \<and> j < 32 \<longrightarrow> unat sz \<noteq> 2 ^ j)"
        using ne by (metis Suc_eq_plus1 Suc_leI le_neq_implies_less add_leD1 le_add1 le_trans)
      with "1.IH" [OF True miss] True miss show ?thesis
        by (simp add: procserv_find_device_loop.simps [of sz i])
    qed
  qed
qed

lemma find_device_loop_some:
  "unat sz = 2 ^ j \<Longrightarrow> j < 32 \<Longrightarrow> i \<le> j \<Longrightarrow> procserv_find_device_loop sz i = int j"
proof (induction sz i rule: procserv_find_device_loop.induct)
  case (1 sz i)
  show ?case
  proof (cases "push_bit i 1 = sz")
    case True
    have "i < 32" using "1.prems" by simp
    with True have "unat sz = 2 ^ i" using shift_is_power [of i sz] by simp
    with "1.prems" have "(2 :: nat) ^ i = 2 ^ j" by simp
    then have "i = j" by simp
    moreover have "procserv_find_device_loop sz i = int i"
      using True \<open>i < 32\<close> by (simp add: procserv_find_device_loop.simps [of sz i])
    ultimately show ?thesis by simp
  next
    case False
    with "1.prems" have "i \<noteq> j" using shift_is_power [of j sz] by auto
    with "1.prems" have "i + 1 \<le> j" "i < 32" by auto
    with "1.IH" [OF _ False] "1.prems" False show ?thesis
      by (simp add: procserv_find_device_loop.simps [of sz i])
  qed
qed

lemma find_device_invalid_size:
  assumes "\<forall>i<32. unat sz \<noteq> 2 ^ i"
  shows "procserv_find_device path0 p sz s = Some (path0\<lparr>capPtr := 0\<rparr>, s)"
proof -
  from assms have "procserv_find_device_loop sz 0 = - 1"
    by (simp add: find_device_loop_none)
  then show ?thesis by (simp add: procserv_find_device_def)
qed

lemma find_device_lookup_failure:
  assumes sz: "unat sz = 2 ^ i" and i: "i < 32"
    and free: "free_cslots (vka s) = slot # rest"
    and f: "fst (simple_get_frame_cap (simpleEnv s) (cnode s) p (int i)
                   (vka_cspace_make_path (vka s) slot)) \<noteq> 0"
  shows "procserv_find_device path0 p sz s =
           Some ((vka_cspace_make_path (vka s) slot)\<lparr>capPtr := 0\<rparr>, s)"
proof -
  have l: "procserv_find_device_loop sz 0 = int i"
    using find_device_loop_some [OF sz i] by simp
  have a: "vka_cspace_alloc_path (vka s) (path0\<lparr>capPtr := 0\<rparr>) =
             (0, (vka s)\<lparr>free_cslots := rest\<rparr>, vka_cspace_make_path (vka s) slot)"
    using free by (simp add: vka_cspace_alloc_path_def seL4_NoError_def)
  obtain e cn where g: "simple_get_frame_cap (simpleEnv s) (cnode s) p (int i)
                   (vka_cspace_make_path (vka s) slot) = (e, cn)"
    by (cases "simple_get_frame_cap (simpleEnv s) (cnode s) p (int i)
                   (vka_cspace_make_path (vka s) slot)")
  with f have e: "e \<noteq> 0" and cn: "cn = cnode s"
    by (auto simp: simple_get_frame_cap_def seL4_NoError_def seL4_FailedLookup_def
          split: if_splits)
  have fr: "vka_cspace_free ((vka s)\<lparr>free_cslots := rest\<rparr>) slot = vka s"
    by (rule alloc_then_free [OF free])
  show ?thesis
    using l a g e cn fr by (simp add: procserv_find_device_def make_path_simps)
qed

lemma find_device_failure_keeps_state:
  assumes r: "procserv_find_device path0 p sz s = Some (path, s')"
    and z: "capPtr path = 0"
  shows "s' = s"
proof (cases "procserv_find_device_loop sz 0 = - 1")
  case True
  with r show ?thesis by (simp add: procserv_find_device_def)
next
  case valid: False
  obtain error v pa where a: "vka_cspace_alloc_path (vka s) (path0\<lparr>capPtr := 0\<rparr>) = (error, v, pa)"
    by (cases "vka_cspace_alloc_path (vka s) (path0\<lparr>capPtr := 0\<rparr>)")
  from alloc_path_cases [OF a] show ?thesis
  proof
    assume "error \<noteq> 0 \<and> free_cslots (vka s) = [] \<and> v = vka s \<and> pa = path0\<lparr>capPtr := 0\<rparr>"
    with r valid a show ?thesis by (auto simp: procserv_find_device_def)
  next
    assume "error = 0 \<and> (\<exists>slot rest. free_cslots (vka s) = slot # rest \<and>
              v = (vka s)\<lparr>free_cslots := rest\<rparr> \<and> pa = vka_cspace_make_path (vka s) slot)"
    then obtain slot rest where e: "error = 0" and free: "free_cslots (vka s) = slot # rest"
      and v: "v = (vka s)\<lparr>free_cslots := rest\<rparr>" and pa: "pa = vka_cspace_make_path (vka s) slot"
      by blast
    have fr: "vka_cspace_free v (capPtr pa) = vka s"
      using alloc_then_free [OF free] by (simp add: v pa make_path_simps)
    from r valid a e z fr show ?thesis
      by (auto simp: procserv_find_device_def simple_get_frame_cap_def seL4_NoError_def
            seL4_FailedLookup_def split: prod.splits if_splits)
  qed
qed

text \<open>
  For a size whose 32-bit pattern is a power of two \<open>2 ^ i\<close> with \<open>i < 32\<close> the loop finds
  \<open>i\<close>, and for every other size \<^verbatim>\<open>procserv_find_device\<close> returns a path whose \<^verbatim>\<open>capPtr\<close>
  is 0 with the state as it was. When the device lookup fails the allocated slot is
  freed, and whenever a path with \<^verbatim>\<open>capPtr\<close> 0 is returned the state is unchanged.
\<close>

lemma find_device_other_sizes:
  "((\<forall>i<32. unat sz \<noteq> 2 ^ i) \<longrightarrow>
      procserv_find_device path0 p sz s = Some (path0\<lparr>capPtr := 0\<rparr>, s)) \<and>
   (unat sz = 2 ^ i \<and> i < 32 \<and> free_cslots (vka s) = slot # rest \<and>
    fst (simple_get_frame_cap (simpleEnv s) (cnode s) p (int i)
           (vka_cspace_make_path (vka s) slot)) \<noteq> 0 \<longrightarrow>
      procserv_find_device path0 p sz s =
        Some ((vka_cspace_make_path (vka s) slot)\<lparr>capPtr := 0\<rparr>, s)) \<and>
   (procserv_find_device path0 p sz s = Some (path, s') \<and> capPtr path = 0 \<longrightarrow> s' = s)"
  using find_device_invalid_size [of sz path0 p s]
        find_device_lookup_failure [of sz i s slot rest p path0]
        find_device_failure_keeps_state [of path0 p sz s path s']
  by blast

text \<open>
  Claim C7 fails on the code at the size \<open>- 2 ^ 31\<close>, the least \<^verbatim>\<open>int\<close>. It is negative and
  so no power of two, but it is the value of \<^verbatim>\<open>1 << 31\<close> on 32-bit \<^verbatim>\<open>int\<close>s: the loop ends
  with \<^verbatim>\<open>sizeBits = 31\<close> and the function goes on to allocate a slot. In the start-up
  state the path returned is the allocated one with \<^verbatim>\<open>capPtr\<close> cleared, where size 100
  returns the untouched local. Where the boot environment has a device region of
  \<open>2 ^ 31\<close> bytes the call succeeds: slot 10 is taken from the allocator and returned
  with the frame capability in it.
\<close>

theorem find_device_int_min:
  "sint (0x80000000 :: c_int) = - 2147483648 \<and>
   procserv_find_device_loop 0x80000000 0 = 31 \<and>
   procserv_find_device zero_path 0x80000000 100 boot_state = Some (zero_path, boot_state) \<and>
   procserv_find_device zero_path 0x80000000 0x80000000 boot_state =
     Some (\<lparr>capPtr = 0, capDepth = 32, root = 2\<rparr>, boot_state) \<and>
   procserv_find_device zero_path 0x80000000 0x80000000 big_device_state =
     Some (\<lparr>capPtr = 10, capDepth = 32, root = 2\<rparr>,
           big_device_state
             \<lparr>vka := \<lparr>free_cslots = [11, 12], cspace_root = 2\<rparr>,
              cnode := (cnode big_device_state)(10 \<mapsto> Cap_Frame 0x80000000 31)\<rparr>)"
proof -
  have u: "unat (0x80000000 :: c_int) = 2 ^ 31" by simp
  have l: "procserv_find_device_loop 0x80000000 0 = 31"
    using find_device_loop_some [OF u, of 0] by simp
  have h: "\<forall>i<32. unat (100 :: c_int) \<noteq> 2 ^ i"
  proof (intro allI impI)
    fix i :: nat
    show "unat (100 :: c_int) \<noteq> 2 ^ i"
    proof (cases "i \<le> 6")
      case True
      then have "(2 :: nat) ^ i \<le> 2 ^ 6" by (intro power_increasing) simp_all
      then show ?thesis by simp
    next
      case False
      then have "(2 :: nat) ^ 7 \<le> 2 ^ i" by (intro power_increasing) simp_all
      then show ?thesis by simp
    qed
  qed
  have "sint (0x80000000 :: c_int) = - 2147483648" by simp
  moreover have "procserv_find_device zero_path 0x80000000 100 boot_state =
                   Some (zero_path, boot_state)"
    using find_device_invalid_size [OF h, of zero_path "0x80000000" boot_state]
    by (simp add: zero_path_def)
  moreover have "procserv_find_device zero_path 0x80000000 0x80000000 boot_state =
                   Some (\<lparr>capPtr = 0, capDepth = 32, root = 2\<rparr>, boot_state)"
    using l
    by (simp add: procserv_find_device_def boot_state_def vka_cspace_alloc_path_def
          vka_cspace_make_path_def vka_cspace_free_def simple_get_frame_cap_def
          seL4_NoError_def seL4_FailedLookup_def zero_path_def)
  moreover have "procserv_find_device zero_path 0x80000000 0x80000000 big_device_state =
     Some (\<lparr>capPtr = 10, capDepth = 32, root = 2\<rparr>,
           big_device_state
             \<lparr>vka := \<lparr>free_cslots = [11, 12], cspace_root = 2\<rparr>,
              cnode := (cnode big_device_state)(10 \<mapsto> Cap_Frame 0x80000000 31)\<rparr>)"
    using l
    by (simp add: procserv_find_device_def big_device_state_def boot_state_def
          vka_cspace_alloc_path_def vka_cspace_make_path_def simple_get_frame_cap_def
          seL4_NoError_def zero_path_def)
  ultimately show ?thesis using l by simp
qed

subsection \<open>procserv_flush\<close>

text \<open>
  Claim C8. With a null \<open>frame\<close> pointer \<^verbatim>\<open>procserv_flush\<close> returns and changes nothing.
  With an array of at least \<open>nFrames\<close> entries it returns, and the synchronisations it
  requests are those of the non-null entries among the first \<open>nFrames\<close>, in order, over
  the whole page (none at all when the build is not for ARM). For the array
  \<open>[0, validFrame]\<close> and \<open>nFrames = 2\<close> only \<open>validFrame\<close> is synchronised.
\<close>

theorem flush_tolerates_null:
  "procserv_flush arm None nFrames s = Some s \<and>
   (nat (sint nFrames) \<le> length fs \<longrightarrow>
      procserv_flush arm (Some fs) nFrames s =
        Some (s\<lparr>unified := unified s @
                (if arm
                 then map (\<lambda>c. (c, 0, REFOS_PAGE_SIZE))
                        (filter (\<lambda>c. c \<noteq> 0) (take (nat (sint nFrames)) fs))
                 else [])\<rparr>)) \<and>
   (validFrame \<noteq> 0 \<longrightarrow>
      procserv_flush arm (Some [0, validFrame]) 2 s =
        Some (s\<lparr>unified := unified s @
                (if arm then [(validFrame, 0, REFOS_PAGE_SIZE)] else [])\<rparr>))"
proof (intro conjI impI)
  show "procserv_flush arm None nFrames s = Some s"
    by (simp add: procserv_flush_def)
next
  assume len: "nat (sint nFrames) \<le> length fs"
  show "procserv_flush arm (Some fs) nFrames s =
          Some (s\<lparr>unified := unified s @
                  (if arm
                   then map (\<lambda>c. (c, 0, REFOS_PAGE_SIZE))
                          (filter (\<lambda>c. c \<noteq> 0) (take (nat (sint nFrames)) fs))
                   else [])\<rparr>)"
  proof (cases arm)
    case True
    then show ?thesis
      using flush_loop_result [OF len, of 0 s] by (simp add: procserv_flush_def)
  next
    case False
    then show ?thesis by (simp add: procserv_flush_def)
  qed
next
  assume "validFrame \<noteq> 0"
  moreover have "nat (sint (2 :: c_int)) \<le> length [0, validFrame]" by simp
  ultimately show "procserv_flush arm (Some [0, validFrame]) 2 s =
          Some (s\<lparr>unified := unified s @
                  (if arm then [(validFrame, 0, REFOS_PAGE_SIZE)] else [])\<rparr>)"
    by (simp add: procserv_flush_def flush_loop_result)
qed

text \<open>A null pointer, an empty array and an array with a null entry.\<close>

theorem flush_tolerates_null_witness:
  "procserv_flush True None 2 boot_state = Some boot_state \<and>
   procserv_flush True (Some []) 0 boot_state = Some boot_state \<and>
   procserv_flush True (Some [0, 7]) 2 boot_state =
     Some (boot_state\<lparr>unified := [(7, 0, REFOS_PAGE_SIZE)]\<rparr>) \<and>
   procserv_flush False (Some [0, 7]) 2 boot_state = Some boot_state"
proof -
  have u: "unified boot_state = []" by (simp add: boot_state_def)
  show ?thesis
    using flush_tolerates_null [where arm = True and nFrames = 2 and s = boot_state
             and fs = "[0, 7]" and validFrame = 7]
          flush_tolerates_null [where arm = True and nFrames = 0 and s = boot_state
             and fs = "[]" and validFrame = 7]
          flush_tolerates_null [where arm = False and nFrames = 2 and s = boot_state
             and fs = "[0, 7]" and validFrame = 7] u
    by simp
qed

end
